theory Spec2Isabelle
  imports Main "HOL-Library.Char_ord" "HOL-Library.List_Lexorder"
begin

section \<open>The tables of the download service\<close>

text \<open>
  The module \<^verbatim>\<open>download/db.py\<close> reads and writes four SQLite tables. A row is a
  record whose fields are the columns; the field prefix is the alias the queries of the
  module use for the table (\<open>t\<close> for \<^verbatim>\<open>generate_task\<close>, \<open>p\<close> for \<^verbatim>\<open>package\<close>).
  A column that may hold SQL NULL is an \<open>option\<close>, \<open>None\<close> being NULL.

  SQLite keeps a timestamp as text (\<^verbatim>\<open>YYYY-MM-DD HH:MM:SS\<close>) and compares two texts
  byte by byte, a proper prefix being smaller: the lexicographic order of \<open>string\<close>.
  The \<^verbatim>\<open>initiated_after\<close> given to a call is the text that reaches SQLite, whatever
  it reads as; the default \<^verbatim>\<open>''\<close> is the empty string. A row is returned with the
  values as stored; their conversion to Python values on reading is left out.
\<close>

type_synonym timestamp = string

record download_row =
  d_token :: string
  d_filename :: string

record generate_task_row =
  t_dataset_id :: string
  t_task_id :: string
  t_status :: "string option"
  t_is_partial :: bool
  t_initiated :: "timestamp option"
  t_date_done :: "timestamp option"

record generate_scope_row =
  s_task_id :: string
  s_filepath :: string

record package_row =
  p_filename :: string
  p_size_bytes :: int
  p_checksum :: string
  p_generated_by :: string

text \<open>A table is the list of its rows in scan order (the order of insertion).\<close>

record database =
  tbl_download :: "download_row list"
  tbl_generate_task :: "generate_task_row list"
  tbl_generate_scope :: "generate_scope_row list"
  tbl_package :: "package_row list"

section \<open>SQL conditions\<close>

text \<open>
  A condition of a \<^verbatim>\<open>WHERE\<close> or \<^verbatim>\<open>ON\<close> clause has three values: true, false and
  NULL (\<open>None\<close>). \<^verbatim>\<open>=\<close> and \<^verbatim>\<open>>\<close> are NULL when an operand is NULL;
  \<^verbatim>\<open>IS NOT\<close> never is, and holds NULL to be different from every value. A row is
  selected when the whole condition is true.
\<close>

type_synonym sql_bool = "bool option"

definition sql_eq :: "'a option \<Rightarrow> 'a option \<Rightarrow> sql_bool" where
  "sql_eq a b = (case a of None \<Rightarrow> None | Some x \<Rightarrow> (case b of None \<Rightarrow> None | Some y \<Rightarrow> Some (x = y)))"

definition sql_is_not :: "'a option \<Rightarrow> 'a option \<Rightarrow> sql_bool" where
  "sql_is_not a b = Some (a \<noteq> b)"

definition sql_and :: "sql_bool \<Rightarrow> sql_bool \<Rightarrow> sql_bool" where
  "sql_and a b =
     (if a = Some False \<or> b = Some False then Some False
      else if a = Some True \<and> b = Some True then Some True
      else None)"

definition sql_true :: "sql_bool \<Rightarrow> bool" where
  "sql_true c = (c = Some True)"

text \<open>
  Modelled from the spec: the schema script is not among the sources. The spec declares
  \<open>initiated\<close> a timestamp, and \<^verbatim>\<open>get_db\<close> has \<^verbatim>\<open>sqlite3\<close> parse the declared
  types: a column declared \<^verbatim>\<open>TIMESTAMP\<close> has NUMERIC affinity. In the comparison
  \<^verbatim>\<open>initiated > ?\<close> SQLite applies that affinity to the text bound to the parameter: a
  text that reads as a number is taken as that number, and a number is smaller than
  every text. A text reads as a number when it is a well-formed integer or real literal
  with blanks before and after it: a sign, digits with at most one point among them and
  at least one digit, and an exponent. \<open>scan_char\<close> reads it as SQLite does, one
  character after the other. The timestamps a row holds are texts that do not read as
  numbers, so the column keeps them as texts.
\<close>

datatype scan =
    Start | Signed | Int_digits | Point | Frac_digits
  | Exp_mark | Exp_signed | Exp_digits | Trail | Reject

definition is_digit :: "char \<Rightarrow> bool" where
  "is_digit c = (c \<in> set ''0123456789'')"

definition is_space :: "char \<Rightarrow> bool" where
  "is_space c = (c \<in> set [CHR '' '', CHR 0x09, CHR 0x0A, CHR 0x0B, CHR 0x0C, CHR 0x0D])"

fun scan_char :: "scan \<Rightarrow> char \<Rightarrow> scan" where
  "scan_char Start c =
     (if is_space c then Start
      else if c = CHR ''+'' \<or> c = CHR ''-'' then Signed
      else if is_digit c then Int_digits
      else if c = CHR ''.'' then Point
      else Reject)"
| "scan_char Signed c =
     (if is_digit c then Int_digits else if c = CHR ''.'' then Point else Reject)"
| "scan_char Int_digits c =
     (if is_digit c then Int_digits
      else if c = CHR ''.'' then Frac_digits
      else if c = CHR ''e'' \<or> c = CHR ''E'' then Exp_mark
      else if is_space c then Trail
      else Reject)"
| "scan_char Point c = (if is_digit c then Frac_digits else Reject)"
| "scan_char Frac_digits c =
     (if is_digit c then Frac_digits
      else if c = CHR ''e'' \<or> c = CHR ''E'' then Exp_mark
      else if is_space c then Trail
      else Reject)"
| "scan_char Exp_mark c =
     (if c = CHR ''+'' \<or> c = CHR ''-'' then Exp_signed
      else if is_digit c then Exp_digits
      else Reject)"
| "scan_char Exp_signed c = (if is_digit c then Exp_digits else Reject)"
| "scan_char Exp_digits c =
     (if is_digit c then Exp_digits else if is_space c then Trail else Reject)"
| "scan_char Trail c = (if is_space c then Trail else Reject)"
| "scan_char Reject c = Reject"

definition reads_as_number :: "string \<Rightarrow> bool" where
  "reads_as_number p =
     (foldl scan_char Start p \<in> set [Int_digits, Frac_digits, Exp_digits, Trail])"

definition numeric_column_gt :: "string option \<Rightarrow> string \<Rightarrow> sql_bool" where
  "numeric_column_gt a p =
     (case a of None \<Rightarrow> None | Some x \<Rightarrow> Some (reads_as_number p \<or> p < x))"

text \<open>The two ways the module reads a cursor.\<close>

definition fetchone :: "'a list \<Rightarrow> 'a option" where
  "fetchone rows = (case rows of [] \<Rightarrow> None | r # _ \<Rightarrow> Some r)"

definition fetchall :: "'a list \<Rightarrow> 'a list" where
  "fetchall rows = rows"

section \<open>Inserts under the schema\<close>

datatype error = IntegrityError

text \<open>
  Modelled from the spec: the schema script \<^verbatim>\<open>create_tables.sql\<close> that \<^verbatim>\<open>init_db\<close>
  runs is not among the sources. The spec declares \<^verbatim>\<open>download(token PK, filename)\<close>:
  an insert of a token the table holds is rejected. \<^verbatim>\<open>sqlite3\<close> raises
  \<^verbatim>\<open>IntegrityError\<close> for it, the error kind the spec calls ConstraintViolation.
\<close>

definition insert_download :: "string \<Rightarrow> string \<Rightarrow> database \<Rightarrow> error + database" where
  "insert_download token filename db =
     (if token \<in> set (map d_token (tbl_download db)) then Inl IntegrityError
      else Inr (db\<lparr>tbl_download :=
                  tbl_download db @ [\<lparr>d_token = token, d_filename = filename\<rparr>]\<rparr>))"

text \<open>
  Modelled from the spec: the schema script is not among the sources. The spec declares
  \<^verbatim>\<open>generate_task(task_id PK, dataset_id, status, is_partial, initiated, date_done)\<close>
  with \<open>initiated\<close> set at insert to the current time and \<open>date_done\<close> nullable. The
  statement of \<^verbatim>\<open>create_task_rows\<close> gives \<open>dataset_id\<close>, \<open>task_id\<close>, the literal
  \<^verbatim>\<open>'PENDING'\<close> and \<open>is_partial\<close>; the store fills \<open>initiated\<close> with its clock
  \<open>now\<close> and leaves \<open>date_done\<close> NULL: the row \<open>new_task\<close>.
\<close>

definition new_task :: "timestamp \<Rightarrow> string \<Rightarrow> string \<Rightarrow> bool \<Rightarrow> generate_task_row" where
  "new_task now dataset_id task_id is_partial =
     \<lparr>t_dataset_id = dataset_id, t_task_id = task_id, t_status = Some ''PENDING'',
      t_is_partial = is_partial, t_initiated = Some now, t_date_done = None\<rparr>"

definition insert_generate_task ::
  "timestamp \<Rightarrow> string \<Rightarrow> string \<Rightarrow> bool \<Rightarrow> database \<Rightarrow> error + database" where
  "insert_generate_task now dataset_id task_id is_partial db =
     (if task_id \<in> set (map t_task_id (tbl_generate_task db)) then Inl IntegrityError
      else Inr (db\<lparr>tbl_generate_task :=
                  tbl_generate_task db @ [new_task now dataset_id task_id is_partial]\<rparr>))"

text \<open>
  Modelled from the spec: the schema script is not among the sources. The spec declares
  \<^verbatim>\<open>generate_scope(task_id FK, filepath)\<close> with composite uniqueness on
  \<open>(task_id, filepath)\<close>. \<^verbatim>\<open>get_db\<close> never switches foreign key enforcement on,
  so SQLite checks the uniqueness only.
\<close>

definition insert_generate_scope :: "string \<Rightarrow> string \<Rightarrow> database \<Rightarrow> error + database" where
  "insert_generate_scope task_id filepath db =
     (if \<lparr>s_task_id = task_id, s_filepath = filepath\<rparr> \<in> set (tbl_generate_scope db)
      then Inl IntegrityError
      else Inr (db\<lparr>tbl_generate_scope :=
                  tbl_generate_scope db @ [\<lparr>s_task_id = task_id, s_filepath = filepath\<rparr>]\<rparr>))"

section \<open>Connections and the unit of work\<close>

text \<open>
  A connection of \<^verbatim>\<open>sqlite3\<close> opens a transaction before the first insert and keeps it
  until \<^verbatim>\<open>commit\<close>: \<open>pending\<close> is the content of the database as the open transaction
  sees it, \<open>None\<close> when no transaction is open. The file holds what has been committed,
  which is all that another connection reads.
\<close>

record connection =
  conn_id :: nat
  pending :: "database option"

definition conn_view :: "connection \<Rightarrow> database \<Rightarrow> database" where
  "conn_view c file = (case pending c of None \<Rightarrow> file | Some db \<Rightarrow> db)"

text \<open>
  An insert that the schema rejects raises and changes no table; the transaction
  that was opened for it stays open.
\<close>

definition conn_execute ::
  "(database \<Rightarrow> error + database) \<Rightarrow> connection \<Rightarrow> database \<Rightarrow> (error + unit) \<times> connection" where
  "conn_execute stmt c file =
     (let db = conn_view c file
      in case stmt db of
           Inl e \<Rightarrow> (Inl e, c\<lparr>pending := Some db\<rparr>)
         | Inr db' \<Rightarrow> (Inr (), c\<lparr>pending := Some db'\<rparr>))"

definition conn_commit :: "connection \<Rightarrow> database \<Rightarrow> connection \<times> database" where
  "conn_commit c file = (c\<lparr>pending := None\<rparr>, conn_view c file)"

text \<open>
  The state of one unit of work (one application context of Flask): the database file
  \<^verbatim>\<open>DATABASE_FILE\<close>, the attribute \<^verbatim>\<open>g.db\<close> (\<open>None\<close> when \<open>'db' not in g\<close>), the
  number of calls of \<^verbatim>\<open>sqlite3.connect\<close> so far, and the connections that are open.
  The calls of the logger are left out. The file is taken to be reachable and to hold the
  four tables (\<^verbatim>\<open>init_db\<close> has run): \<^verbatim>\<open>sqlite3.connect\<close> and the statements
  raise nothing but what the schema rejects.
\<close>

record app_state =
  db_file :: database
  g_db :: "connection option"
  connects :: nat
  open_conns :: "nat list"

definition get_db :: "app_state \<Rightarrow> connection \<times> app_state" where
  "get_db s =
     (case g_db s of
        None \<Rightarrow>
          (let c = \<lparr>conn_id = connects s, pending = None\<rparr>
           in (c, s\<lparr>g_db := Some c, connects := Suc (connects s),
                    open_conns := conn_id c # open_conns s\<rparr>))
      | Some c \<Rightarrow> (c, s))"

definition close_db :: "app_state \<Rightarrow> app_state" where
  "close_db s =
     (case g_db s of
        None \<Rightarrow> s
      | Some db_conn \<Rightarrow>
          s\<lparr>g_db := None, open_conns := removeAll (conn_id db_conn) (open_conns s)\<rparr>)"

text \<open>
  What a statement of this unit of work reads: the open transaction of \<^verbatim>\<open>g.db\<close>
  when there is one, the file otherwise. Another unit of work has a \<open>g\<close> of its own and
  reads the file.
\<close>

definition unit_view :: "app_state \<Rightarrow> database" where
  "unit_view s = (case g_db s of None \<Rightarrow> db_file s | Some c \<Rightarrow> conn_view c (db_file s))"

definition other_unit :: "app_state \<Rightarrow> app_state" where
  "other_unit s = s\<lparr>g_db := None\<rparr>"

section \<open>The operations of the module\<close>

text \<open>
  \<open>db_conn\<close> is the object \<^verbatim>\<open>g.db\<close> itself: what a statement does to it is written back
  to \<open>g_db\<close>. An operation that raises returns \<open>Inl\<close> with the state it leaves behind.
  The first argument of \<open>create_task_rows\<close> is what the clock of the store reads when
  the task row is inserted; the others are those of the source, in its order.
\<close>

definition get_download_record :: "string \<Rightarrow> app_state \<Rightarrow> download_row option \<times> app_state" where
  "get_download_record token s =
     (let (db_conn, s1) = get_db s
      in (fetchone (filter (\<lambda>r. sql_true (sql_eq (Some (d_token r)) (Some token)))
                      (tbl_download (conn_view db_conn (db_file s1)))), s1))"

type_synonym task_listed =
  "timestamp option \<times> timestamp option \<times> string \<times> string option \<times> bool"

definition task_columns :: "generate_task_row \<Rightarrow> task_listed" where
  "task_columns r = (t_initiated r, t_date_done r, t_task_id r, t_status r, t_is_partial r)"

text \<open>
  The \<^verbatim>\<open>WHERE\<close> clause of \<^verbatim>\<open>get_task_rows\<close>. No column is named \<open>FAILURE\<close>, so
  SQLite reads the double-quoted word as the string literal.
\<close>

definition task_selected :: "string \<Rightarrow> timestamp \<Rightarrow> generate_task_row \<Rightarrow> sql_bool" where
  "task_selected dataset_id initiated_after r =
     sql_and (sql_and (sql_eq (Some (t_dataset_id r)) (Some dataset_id))
                      (sql_is_not (t_status r) (Some ''FAILURE'')))
             (numeric_column_gt (t_initiated r) initiated_after)"

definition get_task_rows :: "string \<Rightarrow> timestamp \<Rightarrow> app_state \<Rightarrow> task_listed list \<times> app_state" where
  "get_task_rows dataset_id initiated_after s =
     (let (db_conn, s1) = get_db s
      in (fetchall (map task_columns
                      (filter (\<lambda>r. sql_true (task_selected dataset_id initiated_after r))
                         (tbl_generate_task (conn_view db_conn (db_file s1))))), s1))"

definition create_download_record ::
  "string \<Rightarrow> string \<Rightarrow> app_state \<Rightarrow> (error + unit) \<times> app_state" where
  "create_download_record token filename s =
     (let (db_conn, s1) = get_db s
      in case conn_execute (insert_download token filename) db_conn (db_file s1) of
           (Inl e, c1) \<Rightarrow> (Inl e, s1\<lparr>g_db := Some c1\<rparr>)
         | (Inr _, c1) \<Rightarrow>
             (let (c2, file') = conn_commit c1 (db_file s1)
              in (Inr (), s1\<lparr>db_file := file', g_db := Some c2\<rparr>)))"

fun insert_scope_rows ::
  "string \<Rightarrow> string list \<Rightarrow> connection \<Rightarrow> database \<Rightarrow> (error + unit) \<times> connection" where
  "insert_scope_rows task_id [] c file = (Inr (), c)"
| "insert_scope_rows task_id (filepath # rest) c file =
     (case conn_execute (insert_generate_scope task_id filepath) c file of
        (Inl e, c1) \<Rightarrow> (Inl e, c1)
      | (Inr _, c1) \<Rightarrow> insert_scope_rows task_id rest c1 file)"

type_synonym task_created =
  "timestamp option \<times> string \<times> string option \<times> timestamp option"

definition created_columns :: "generate_task_row \<Rightarrow> task_created" where
  "created_columns r = (t_initiated r, t_task_id r, t_status r, t_date_done r)"

definition create_task_rows ::
  "timestamp \<Rightarrow> string \<Rightarrow> string \<Rightarrow> bool \<Rightarrow> string list \<Rightarrow> app_state
     \<Rightarrow> (error + task_created option) \<times> app_state" where
  "create_task_rows now dataset_id task_id is_partial generate_scope s =
     (let (db_conn, s1) = get_db s
      in case conn_execute (insert_generate_task now dataset_id task_id is_partial)
                db_conn (db_file s1) of
           (Inl e, c1) \<Rightarrow> (Inl e, s1\<lparr>g_db := Some c1\<rparr>)
         | (Inr _, c1) \<Rightarrow>
             (case insert_scope_rows task_id generate_scope c1 (db_file s1) of
                (Inl e, c2) \<Rightarrow> (Inl e, s1\<lparr>g_db := Some c2\<rparr>)
              | (Inr _, c2) \<Rightarrow>
                  (let (c3, file') = conn_commit c2 (db_file s1)
                   in (Inr (fetchone (map created_columns
                              (filter (\<lambda>r. sql_true (sql_eq (Some (t_task_id r)) (Some task_id)))
                                 (tbl_generate_task (conn_view c3 file'))))),
                       s1\<lparr>db_file := file', g_db := Some c3\<rparr>))))"

type_synonym package_found = "string \<times> int \<times> string"

definition get_package_row :: "string \<Rightarrow> app_state \<Rightarrow> package_found option \<times> app_state" where
  "get_package_row generated_by s =
     (let (db_conn, s1) = get_db s
      in (fetchone (map (\<lambda>p. (p_filename p, p_size_bytes p, p_checksum p))
                      (filter (\<lambda>p. sql_true (sql_eq (Some (p_generated_by p)) (Some generated_by)))
                         (tbl_package (conn_view db_conn (db_file s1))))), s1))"

definition get_generate_scope_filepaths :: "string \<Rightarrow> app_state \<Rightarrow> string set \<times> app_state" where
  "get_generate_scope_filepaths task_id s =
     (let (db_conn, s1) = get_db s;
          scope_rows = fetchall (filter (\<lambda>r. sql_true (sql_eq (Some (s_task_id r)) (Some task_id)))
                                   (tbl_generate_scope (conn_view db_conn (db_file s1))))
      in (set (map s_filepath scope_rows), s1))"

text \<open>
  The join of \<^verbatim>\<open>get_task_for_package\<close>: every pair of a task row and a package row
  for which the \<^verbatim>\<open>ON\<close> condition is true, the task table scanned outermost.
\<close>

definition task_package_on ::
  "string \<Rightarrow> string \<Rightarrow> generate_task_row \<Rightarrow> package_row \<Rightarrow> sql_bool" where
  "task_package_on dataset_id package t p =
     sql_and (sql_and (sql_eq (Some (t_dataset_id t)) (Some dataset_id))
                      (sql_eq (Some (p_filename p)) (Some package)))
             (sql_eq (Some (t_task_id t)) (Some (p_generated_by p)))"

definition get_task_for_package ::
  "string \<Rightarrow> string \<Rightarrow> app_state \<Rightarrow> timestamp option option \<times> app_state" where
  "get_task_for_package dataset_id package s =
     (let (db_conn, s1) = get_db s;
          db = conn_view db_conn (db_file s1)
      in (fetchone (map (\<lambda>(t, p). t_initiated t)
                      (filter (\<lambda>(t, p). sql_true (task_package_on dataset_id package t p))
                         (List.product (tbl_generate_task db) (tbl_package db)))), s1))"

section \<open>A unit of work\<close>

text \<open>
  \<^verbatim>\<open>init_app\<close> registers \<^verbatim>\<open>close_db\<close> as the teardown of the application context:
  a unit of work is a sequence of calls into the module, each of which may return or
  raise, and \<^verbatim>\<open>close_db\<close> after the last one. \<open>after_call\<close> is the state a call
  leaves behind.
\<close>

datatype call =
    Get_db
  | Get_download_record string
  | Get_task_rows string timestamp
  | Create_download_record string string
  | Create_task_rows timestamp string string bool "string list"
  | Get_package_row string
  | Get_generate_scope_filepaths string
  | Get_task_for_package string string

fun after_call :: "call \<Rightarrow> app_state \<Rightarrow> app_state" where
  "after_call Get_db s = snd (get_db s)"
| "after_call (Get_download_record token) s = snd (get_download_record token s)"
| "after_call (Get_task_rows dataset_id initiated_after) s =
     snd (get_task_rows dataset_id initiated_after s)"
| "after_call (Create_download_record token filename) s =
     snd (create_download_record token filename s)"
| "after_call (Create_task_rows now dataset_id task_id is_partial generate_scope) s =
     snd (create_task_rows now dataset_id task_id is_partial generate_scope s)"
| "after_call (Get_package_row generated_by) s = snd (get_package_row generated_by s)"
| "after_call (Get_generate_scope_filepaths task_id) s =
     snd (get_generate_scope_filepaths task_id s)"
| "after_call (Get_task_for_package dataset_id package) s =
     snd (get_task_for_package dataset_id package s)"

definition unit_of_work :: "call list \<Rightarrow> app_state \<Rightarrow> app_state" where
  "unit_of_work calls s = fold after_call calls s"

text \<open>
  Modelled from the spec: the foreign key of \<^verbatim>\<open>generate_scope.task_id\<close> into
  \<^verbatim>\<open>generate_task\<close>, which the schema script (not among the sources) declares and the
  spec lists as an invariant of the store: no scope row without its task.
\<close>

definition scope_rows_have_task :: "database \<Rightarrow> bool" where
  "scope_rows_have_task db =
     list_all (\<lambda>r. s_task_id r \<in> set (map t_task_id (tbl_generate_task db)))
       (tbl_generate_scope db)"

section \<open>A scenario\<close>

text \<open>
  The scenario of the spec (dataset \<open>D1\<close>, task \<open>T1\<close> with scope \<open>a.txt\<close>, \<open>b.txt\<close>
  and package \<open>T1.zip\<close>), with a failed task, a task without status and a task of
  another dataset beside it. No connection is open.
\<close>

definition scenario_db :: database where
  "scenario_db =
     \<lparr>tbl_download = [\<lparr>d_token = ''tok1'', d_filename = ''T1.zip''\<rparr>],
      tbl_generate_task =
        [\<lparr>t_dataset_id = ''D1'', t_task_id = ''T1'', t_status = Some ''SUCCESS'',
          t_is_partial = False, t_initiated = Some ''2020-01-01 10:00:00'',
          t_date_done = Some ''2020-01-01 10:05:00''\<rparr>,
         \<lparr>t_dataset_id = ''D1'', t_task_id = ''T2'', t_status = Some ''FAILURE'',
          t_is_partial = True, t_initiated = Some ''2020-01-03 10:00:00'',
          t_date_done = Some ''2020-01-03 10:01:00''\<rparr>,
         \<lparr>t_dataset_id = ''D1'', t_task_id = ''T3'', t_status = None,
          t_is_partial = True, t_initiated = Some ''2020-01-04 10:00:00'',
          t_date_done = None\<rparr>,
         \<lparr>t_dataset_id = ''D2'', t_task_id = ''T4'', t_status = Some ''PENDING'',
          t_is_partial = False, t_initiated = Some ''2020-01-05 10:00:00'',
          t_date_done = None\<rparr>],
      tbl_generate_scope =
        [\<lparr>s_task_id = ''T1'', s_filepath = ''a.txt''\<rparr>,
         \<lparr>s_task_id = ''T1'', s_filepath = ''b.txt''\<rparr>],
      tbl_package =
        [\<lparr>p_filename = ''T1.zip'', p_size_bytes = 100, p_checksum = ''abc'',
          p_generated_by = ''T1''\<rparr>]\<rparr>"

definition scenario :: app_state where
  "scenario = \<lparr>db_file = scenario_db, g_db = None, connects = 0, open_conns = []\<rparr>"

section \<open>Reading the connection\<close>

lemma sql_true_eq [simp]: "sql_true (sql_eq (Some x) (Some y)) = (x = y)"
  by (simp add: sql_true_def sql_eq_def)

lemma sql_true_and [simp]: "sql_true (sql_and a b) = (sql_true a \<and> sql_true b)"
  by (auto simp: sql_true_def sql_and_def)

lemma sql_true_is_not [simp]: "sql_true (sql_is_not a b) = (a \<noteq> b)"
  by (simp add: sql_true_def sql_is_not_def)

lemma sql_true_gt [simp]:
  "sql_true (numeric_column_gt a p) = (\<exists>x. a = Some x \<and> (reads_as_number p \<or> p < x))"
  by (cases a) (simp_all add: sql_true_def numeric_column_gt_def)

lemma fetchone_None [simp]: "(fetchone rows = None) = (rows = [])"
  by (simp add: fetchone_def split: list.splits)

lemma fetchone_Some: "fetchone rows = Some r \<Longrightarrow> r \<in> set rows"
  by (auto simp: fetchone_def split: list.splits)

lemma filter_absent: "x \<notin> set (map f xs) \<Longrightarrow> filter (\<lambda>r. f r = x) xs = []"
  by (induction xs) auto

lemma conn_view_pending [simp]: "conn_view (c\<lparr>pending := Some db\<rparr>) file = db"
  by (simp add: conn_view_def)

lemma conn_view_no_pending [simp]: "conn_view (c\<lparr>pending := None\<rparr>) file = file"
  by (simp add: conn_view_def)

lemma get_db_view [simp]: "unit_view (snd (get_db s)) = unit_view s"
  by (simp add: get_db_def unit_view_def conn_view_def Let_def split: option.splits)

lemma get_db_file [simp]: "db_file (snd (get_db s)) = db_file s"
  by (simp add: get_db_def Let_def split: option.splits)

lemma get_db_conn_view [simp]: "conn_view (fst (get_db s)) (db_file s) = unit_view s"
  by (simp add: get_db_def unit_view_def conn_view_def Let_def split: option.splits)

lemma unit_view_set_conn [simp]: "unit_view (s\<lparr>g_db := Some c\<rparr>) = conn_view c (db_file s)"
  by (simp add: unit_view_def)

lemma unit_view_commit [simp]:
  "unit_view (s\<lparr>db_file := db, g_db := Some (c\<lparr>pending := None\<rparr>)\<rparr>) = db"
  by (simp add: unit_view_def conn_view_def)

lemma unit_view_other_unit [simp]: "unit_view (other_unit s) = db_file s"
  by (simp add: unit_view_def other_unit_def)

text \<open>Each query reads the tables as this unit of work sees them.\<close>

lemma get_download_record_view:
  "get_download_record token s =
     (fetchone (filter (\<lambda>r. d_token r = token) (tbl_download (unit_view s))), snd (get_db s))"
  by (simp add: get_download_record_def split_beta Let_def)

lemma task_selected_iff:
  "sql_true (task_selected dataset_id initiated_after r) =
     (t_dataset_id r = dataset_id \<and> t_status r \<noteq> Some ''FAILURE'' \<and>
      (\<exists>i. t_initiated r = Some i \<and> (reads_as_number initiated_after \<or> initiated_after < i)))"
  by (simp add: task_selected_def)

lemma get_task_rows_view:
  "get_task_rows dataset_id initiated_after s =
     (map task_columns (filter (\<lambda>r. sql_true (task_selected dataset_id initiated_after r))
        (tbl_generate_task (unit_view s))), snd (get_db s))"
  by (simp add: get_task_rows_def fetchall_def split_beta Let_def del: sql_true_and)

lemma get_package_row_view:
  "get_package_row generated_by s =
     (fetchone (map (\<lambda>p. (p_filename p, p_size_bytes p, p_checksum p))
        (filter (\<lambda>p. p_generated_by p = generated_by) (tbl_package (unit_view s)))),
      snd (get_db s))"
  by (simp add: get_package_row_def split_beta Let_def)

lemma get_generate_scope_filepaths_view:
  "get_generate_scope_filepaths task_id s =
     (s_filepath ` {r \<in> set (tbl_generate_scope (unit_view s)). s_task_id r = task_id},
      snd (get_db s))"
  by (simp add: get_generate_scope_filepaths_def fetchall_def split_beta Let_def)

lemma get_generate_scope_filepaths_rows:
  "fst (get_generate_scope_filepaths task_id s) =
     set (map s_filepath
            (filter (\<lambda>r. s_task_id r = task_id) (tbl_generate_scope (unit_view s))))"
  by (simp add: get_generate_scope_filepaths_view)

lemma task_package_on_iff:
  "sql_true (task_package_on dataset_id package t p) =
     (t_dataset_id t = dataset_id \<and> p_filename p = package \<and> t_task_id t = p_generated_by p)"
  by (simp add: task_package_on_def)

lemma get_task_for_package_view:
  "get_task_for_package dataset_id package s =
     (fetchone (map (\<lambda>(t, p). t_initiated t)
        (filter (\<lambda>(t, p). t_dataset_id t = dataset_id \<and> p_filename p = package \<and>
                   t_task_id t = p_generated_by p)
           (List.product (tbl_generate_task (unit_view s)) (tbl_package (unit_view s))))),
      snd (get_db s))"
  by (simp add: get_task_for_package_def task_package_on_iff split_beta Let_def
        del: sql_true_and)

text \<open>The definitions a concrete call is evaluated with.\<close>

lemmas scenario_defs =
  scenario_def scenario_db_def get_db_def unit_view_def conn_view_def conn_execute_def
  conn_commit_def Let_def fetchone_def fetchall_def sql_true_def sql_eq_def sql_and_def
  numeric_column_gt_def reads_as_number_def is_digit_def is_space_def sql_is_not_def

section \<open>Listing the tasks of a dataset\<close>

text \<open>
  What reads as a number. A character that no number holds rejects the text, so a
  text with a colon, as every timestamp with a time of day, does not read as a number;
  neither does the empty text, the default of \<^verbatim>\<open>initiated_after\<close>.
\<close>

lemma scan_char_foreign:
  assumes "\<not> is_space c" and "\<not> is_digit c" and "c \<notin> set ''+-.eE''"
  shows "scan_char q c = Reject"
  using assms by (cases q) simp_all

lemma foldl_scan_char_Reject: "foldl scan_char Reject p = Reject"
  by (induction p) simp_all

lemma foreign_char_not_number:
  assumes "c \<in> set p" and "\<not> is_space c" and "\<not> is_digit c" and "c \<notin> set ''+-.eE''"
  shows "\<not> reads_as_number p"
proof -
  from assms(1) obtain xs ys where p: "p = xs @ c # ys"
    by (auto dest: split_list)
  have "foldl scan_char Start p = foldl scan_char (scan_char (foldl scan_char Start xs) c) ys"
    by (simp add: p)
  also have "\<dots> = Reject"
    by (simp add: scan_char_foreign [OF assms(2) assms(3) assms(4)] foldl_scan_char_Reject)
  finally show ?thesis by (simp add: reads_as_number_def)
qed

lemma colon_not_number: "CHR '':'' \<in> set p \<Longrightarrow> \<not> reads_as_number p"
  by (rule foreign_char_not_number [of "CHR '':''"]) (simp_all add: is_space_def is_digit_def)

lemma empty_not_number: "\<not> reads_as_number []"
  by (simp add: reads_as_number_def)

lemma reads_as_number_examples:
  "reads_as_number ''2021''" "reads_as_number ''20210101''" "reads_as_number '' -20.5e+3 ''"
  "reads_as_number ''.5''" "reads_as_number ''5.''"
  "\<not> reads_as_number ''2021-01-01''" "\<not> reads_as_number ''2021-01-01 10:00:00''"
  "\<not> reads_as_number ''1e''" "\<not> reads_as_number ''.''" "\<not> reads_as_number ''0x10''"
  "\<not> reads_as_number ''20 21''"
  by (simp_all add: reads_as_number_def is_digit_def is_space_def)





text \<open>
  C10. Of the tasks of the queried dataset that were initiated after \<open>T\<close>,
  \<^verbatim>\<open>get_task_rows\<close> leaves out exactly those whose status is the string \<open>FAILURE\<close>;
  a task whose status is NULL is returned, since \<^verbatim>\<open>IS NOT\<close> holds NULL to be
  different from \<open>FAILURE\<close>.
\<close>

theorem get_task_rows_keeps_null_status:
  assumes "r \<in> set (tbl_generate_task (unit_view s))"
      and "t_dataset_id r = dataset_id"
      and "t_initiated r = Some i" and "T < i"
  shows "(task_columns r \<in> set (fst (get_task_rows dataset_id T s))
            \<longleftrightarrow> t_status r \<noteq> Some ''FAILURE'') \<and>
         (t_status r = None \<longrightarrow> task_columns r \<in> set (fst (get_task_rows dataset_id T s)))"
proof -
  let ?tasks = "set (tbl_generate_task (unit_view s))"
  let ?rows = "set (fst (get_task_rows dataset_id T s))"
  have rows: "?rows = task_columns ` {x \<in> ?tasks. sql_true (task_selected dataset_id T x)}"
    by (simp add: get_task_rows_view)
  have sel: "sql_true (task_selected dataset_id T r) \<longleftrightarrow> t_status r \<noteq> Some ''FAILURE''"
    using assms by (simp add: task_selected_iff)
  have iff: "task_columns r \<in> ?rows \<longleftrightarrow> t_status r \<noteq> Some ''FAILURE''"
  proof
    assume "task_columns r \<in> ?rows"
    then obtain x where x: "sql_true (task_selected dataset_id T x)"
        "task_columns r = task_columns x"
      using rows by auto
    from x(2) have "t_status x = t_status r" by (simp add: task_columns_def)
    with x(1) show "t_status r \<noteq> Some ''FAILURE''" by (simp add: task_selected_iff)
  next
    assume "t_status r \<noteq> Some ''FAILURE''"
    with sel assms(1) have "r \<in> {x \<in> ?tasks. sql_true (task_selected dataset_id T x)}"
      by simp
    then show "task_columns r \<in> ?rows" unfolding rows by (rule imageI)
  qed
  then show ?thesis by simp
qed

text \<open>The task \<open>T3\<close> of the scenario has no status and is listed.\<close>

theorem get_task_rows_keeps_null_status_witness:
  "\<lparr>t_dataset_id = ''D1'', t_task_id = ''T3'', t_status = None, t_is_partial = True,
     t_initiated = Some ''2020-01-04 10:00:00'', t_date_done = None\<rparr>
     \<in> set (tbl_generate_task (unit_view scenario)) \<and>
   '''' < ''2020-01-04 10:00:00'' \<and>
   (Some ''2020-01-04 10:00:00'', None, ''T3'', None, True)
     \<in> set (fst (get_task_rows ''D1'' '''' scenario))"
proof -
  let ?r = "\<lparr>t_dataset_id = ''D1'', t_task_id = ''T3'', t_status = None, t_is_partial = True,
     t_initiated = Some ''2020-01-04 10:00:00'', t_date_done = None\<rparr>"
  have mem: "?r \<in> set (tbl_generate_task (unit_view scenario))"
    by (simp add: scenario_defs)
  have lt: "('''' :: string) < ''2020-01-04 10:00:00''" by simp
  from get_task_rows_keeps_null_status [OF mem _ _ lt, of "''D1''"]
  show ?thesis using mem by (simp add: task_columns_def)
qed

section \<open>The task behind a package\<close>

text \<open>
  C4. \<^verbatim>\<open>get_task_for_package\<close> returns the \<open>initiated\<close> column of a task of the given
  dataset whose \<open>task_id\<close> is the \<open>generated_by\<close> of a package row with the given
  filename; it returns nothing exactly when no task of the dataset is linked to a
  package of that name; and when all the tasks so linked agree on \<open>initiated\<close> (as when
  there is one such task) that value is what it returns.
\<close>

theorem get_task_for_package_join:
  "(\<forall>x. fst (get_task_for_package dataset_id package s) = Some x \<longrightarrow>
      (\<exists>t \<in> set (tbl_generate_task (unit_view s)). \<exists>p \<in> set (tbl_package (unit_view s)).
         t_task_id t = p_generated_by p \<and> p_filename p = package \<and>
         t_dataset_id t = dataset_id \<and> x = t_initiated t)) \<and>
   (fst (get_task_for_package dataset_id package s) = None \<longleftrightarrow>
      \<not> (\<exists>t \<in> set (tbl_generate_task (unit_view s)). \<exists>p \<in> set (tbl_package (unit_view s)).
         t_task_id t = p_generated_by p \<and> p_filename p = package \<and>
         t_dataset_id t = dataset_id)) \<and>
   (\<forall>t \<in> set (tbl_generate_task (unit_view s)). \<forall>p \<in> set (tbl_package (unit_view s)).
      t_task_id t = p_generated_by p \<and> p_filename p = package \<and> t_dataset_id t = dataset_id \<and>
      (\<forall>t' \<in> set (tbl_generate_task (unit_view s)). \<forall>p' \<in> set (tbl_package (unit_view s)).
         t_task_id t' = p_generated_by p' \<and> p_filename p' = package \<and>
         t_dataset_id t' = dataset_id \<longrightarrow> t_initiated t' = t_initiated t)
      \<longrightarrow> fst (get_task_for_package dataset_id package s) = Some (t_initiated t))"
proof -
  let ?tasks = "set (tbl_generate_task (unit_view s))"
  let ?packages = "set (tbl_package (unit_view s))"
  let ?joined = "filter (\<lambda>(t, p). t_dataset_id t = dataset_id \<and> p_filename p = package \<and>
                   t_task_id t = p_generated_by p)
           (List.product (tbl_generate_task (unit_view s)) (tbl_package (unit_view s)))"
  let ?res = "fst (get_task_for_package dataset_id package s)"
  have res: "?res = fetchone (map (\<lambda>(t, p). t_initiated t) ?joined)"
    by (simp add: get_task_for_package_view)
  have found: "\<exists>t \<in> ?tasks. \<exists>p \<in> ?packages.
         t_task_id t = p_generated_by p \<and> p_filename p = package \<and>
         t_dataset_id t = dataset_id \<and> x = t_initiated t" if "?res = Some x" for x
  proof -
    from that have "fetchone (map (\<lambda>(t, p). t_initiated t) ?joined) = Some x"
      by (simp add: res)
    then have "x \<in> set (map (\<lambda>(t, p). t_initiated t) ?joined)"
      by (rule fetchone_Some)
    then show ?thesis by auto
  qed
  have absent: "?res = None \<longleftrightarrow>
      \<not> (\<exists>t \<in> ?tasks. \<exists>p \<in> ?packages.
         t_task_id t = p_generated_by p \<and> p_filename p = package \<and> t_dataset_id t = dataset_id)"
    by (auto simp: res filter_empty_conv)
  have only: "?res = Some (t_initiated t)"
    if t: "t \<in> ?tasks" and p: "p \<in> ?packages"
      and link: "t_task_id t = p_generated_by p" "p_filename p = package" "t_dataset_id t = dataset_id"
      and agree: "\<forall>t' \<in> ?tasks. \<forall>p' \<in> ?packages.
         t_task_id t' = p_generated_by p' \<and> p_filename p' = package \<and>
         t_dataset_id t' = dataset_id \<longrightarrow> t_initiated t' = t_initiated t"
    for t p
  proof -
    from t p link absent have "?res \<noteq> None" by blast
    then obtain x where x: "?res = Some x" by (cases ?res) auto
    from found [OF x] agree have "x = t_initiated t" by blast
    with x show ?thesis by simp
  qed
  show ?thesis
  proof (intro conjI allI impI ballI)
    fix x assume "?res = Some x"
    then show "\<exists>t \<in> ?tasks. \<exists>p \<in> ?packages.
         t_task_id t = p_generated_by p \<and> p_filename p = package \<and>
         t_dataset_id t = dataset_id \<and> x = t_initiated t"
      by (rule found)
  next
    show "?res = None \<longleftrightarrow>
      \<not> (\<exists>t \<in> ?tasks. \<exists>p \<in> ?packages.
         t_task_id t = p_generated_by p \<and> p_filename p = package \<and> t_dataset_id t = dataset_id)"
      by (rule absent)
  next
    fix t p
    assume "t \<in> ?tasks" "p \<in> ?packages"
      and "t_task_id t = p_generated_by p \<and> p_filename p = package \<and> t_dataset_id t = dataset_id \<and>
      (\<forall>t' \<in> ?tasks. \<forall>p' \<in> ?packages.
         t_task_id t' = p_generated_by p' \<and> p_filename p' = package \<and>
         t_dataset_id t' = dataset_id \<longrightarrow> t_initiated t' = t_initiated t)"
    then show "?res = Some (t_initiated t)"
      using only [of t p] by blast
  qed
qed

text \<open>
  In the scenario the package \<open>T1.zip\<close> was generated by \<open>T1\<close>, a task of \<open>D1\<close>:
  asked for \<open>D1\<close> the answer is the timestamp of \<open>T1\<close>, asked for \<open>D2\<close> it is
  nothing.
\<close>

theorem get_task_for_package_join_witness:
  "fst (get_task_for_package ''D1'' ''T1.zip'' scenario) = Some (Some ''2020-01-01 10:00:00'') \<and>
   (\<exists>t \<in> set (tbl_generate_task (unit_view scenario)).
    \<exists>p \<in> set (tbl_package (unit_view scenario)).
      t_task_id t = p_generated_by p \<and> p_filename p = ''T1.zip'' \<and> t_dataset_id t = ''D1'' \<and>
      Some ''2020-01-01 10:00:00'' = t_initiated t) \<and>
   fst (get_task_for_package ''D2'' ''T1.zip'' scenario) = None"
proof -
  have d1: "fst (get_task_for_package ''D1'' ''T1.zip'' scenario)
              = Some (Some ''2020-01-01 10:00:00'')"
    by (simp add: get_task_for_package_def task_package_on_def scenario_defs)
  have d2: "fst (get_task_for_package ''D2'' ''T1.zip'' scenario) = None"
    by (simp add: get_task_for_package_def task_package_on_def scenario_defs)
  from get_task_for_package_join [of "''D1''" "''T1.zip''" scenario] d1
  have "\<exists>t \<in> set (tbl_generate_task (unit_view scenario)).
    \<exists>p \<in> set (tbl_package (unit_view scenario)).
      t_task_id t = p_generated_by p \<and> p_filename p = ''T1.zip'' \<and> t_dataset_id t = ''D1'' \<and>
      Some ''2020-01-01 10:00:00'' = t_initiated t"
    by blast
  with d1 d2 show ?thesis by simp
qed

section \<open>Lookups that find nothing\<close>

text \<open>
  C9. A lookup is a total function into \<open>option\<close>: it has no error result.
  \<^verbatim>\<open>get_download_record\<close>, \<^verbatim>\<open>get_package_row\<close> and \<^verbatim>\<open>get_task_for_package\<close>
  return \<open>None\<close> (the \<open>None\<close> of \<^verbatim>\<open>fetchone\<close>) exactly when no row matches.
\<close>

theorem lookups_return_none_when_absent:
  "(fst (get_download_record token s) = None
      \<longleftrightarrow> token \<notin> set (map d_token (tbl_download (unit_view s)))) \<and>
   (fst (get_package_row generated_by s) = None
      \<longleftrightarrow> generated_by \<notin> set (map p_generated_by (tbl_package (unit_view s)))) \<and>
   (fst (get_task_for_package dataset_id package s) = None
      \<longleftrightarrow> \<not> (\<exists>t \<in> set (tbl_generate_task (unit_view s)). \<exists>p \<in> set (tbl_package (unit_view s)).
             t_dataset_id t = dataset_id \<and> p_filename p = package \<and>
             t_task_id t = p_generated_by p))"
  by (auto simp: get_download_record_view get_package_row_view get_task_for_package_view
        filter_empty_conv)

theorem lookups_return_none_when_absent_witness:
  "''tok9'' \<notin> set (map d_token (tbl_download (unit_view scenario))) \<and>
   fst (get_download_record ''tok9'' scenario) = None \<and>
   ''T3'' \<notin> set (map p_generated_by (tbl_package (unit_view scenario))) \<and>
   fst (get_package_row ''T3'' scenario) = None \<and>
   fst (get_task_for_package ''D1'' ''T3.zip'' scenario) = None \<and>
   fst (get_download_record ''tok1'' scenario) = Some \<lparr>d_token = ''tok1'', d_filename = ''T1.zip''\<rparr> \<and>
   fst (get_package_row ''T1'' scenario) = Some (''T1.zip'', 100, ''abc'')"
proof -
  have a: "''tok9'' \<notin> set (map d_token (tbl_download (unit_view scenario)))"
    by (simp add: scenario_defs)
  have b: "''T3'' \<notin> set (map p_generated_by (tbl_package (unit_view scenario)))"
    by (simp add: scenario_defs)
  have c: "\<not> (\<exists>t \<in> set (tbl_generate_task (unit_view scenario)).
               \<exists>p \<in> set (tbl_package (unit_view scenario)).
             t_dataset_id t = ''D1'' \<and> p_filename p = ''T3.zip'' \<and>
             t_task_id t = p_generated_by p)"
    by (simp add: scenario_defs)
  have d: "fst (get_download_record ''tok1'' scenario)
             = Some \<lparr>d_token = ''tok1'', d_filename = ''T1.zip''\<rparr>"
    by (simp add: get_download_record_def scenario_defs)
  have e: "fst (get_package_row ''T1'' scenario) = Some (''T1.zip'', 100, ''abc'')"
    by (simp add: get_package_row_def scenario_defs)
  from lookups_return_none_when_absent [of "''tok9''" scenario "''T3''" "''D1''" "''T3.zip''"]
  show ?thesis using a b c d e by simp
qed

section \<open>Download records\<close>

lemma create_download_record_dup:
  assumes "token \<in> set (map d_token (tbl_download (unit_view s)))"
  shows "fst (create_download_record token filename s) = Inl IntegrityError"
    and "db_file (snd (create_download_record token filename s)) = db_file s"
    and "unit_view (snd (create_download_record token filename s)) = unit_view s"
  using assms
  by (auto simp: create_download_record_def insert_download_def get_db_def unit_view_def
        conn_view_def conn_execute_def conn_commit_def Let_def split: option.splits)

lemma create_download_record_new:
  assumes "token \<notin> set (map d_token (tbl_download (unit_view s)))"
  shows "fst (create_download_record token filename s) = Inr ()"
    and "db_file (snd (create_download_record token filename s)) =
           (unit_view s)\<lparr>tbl_download :=
                  tbl_download (unit_view s) @ [\<lparr>d_token = token, d_filename = filename\<rparr>]\<rparr>"
    and "unit_view (snd (create_download_record token filename s)) =
           (unit_view s)\<lparr>tbl_download :=
                  tbl_download (unit_view s) @ [\<lparr>d_token = token, d_filename = filename\<rparr>]\<rparr>"
  using assms
  by (auto simp: create_download_record_def insert_download_def get_db_def unit_view_def
        conn_view_def conn_execute_def conn_commit_def Let_def split: option.splits)

text \<open>
  C5. \<^verbatim>\<open>create_download_record\<close> returns (it does not raise) exactly when the token is
  not in the table yet, and whenever it returns, \<^verbatim>\<open>get_download_record\<close> of the same
  token then returns the record with the filename that was given.
\<close>

theorem create_then_get_download_record:
  "(fst (create_download_record token filename s) = Inr ()
      \<longleftrightarrow> token \<notin> set (map d_token (tbl_download (unit_view s)))) \<and>
   (fst (create_download_record token filename s) = Inr () \<longrightarrow>
      fst (get_download_record token (snd (create_download_record token filename s)))
        = Some \<lparr>d_token = token, d_filename = filename\<rparr>)"
proof (cases "token \<in> set (map d_token (tbl_download (unit_view s)))")
  case True
  then show ?thesis by (simp add: create_download_record_dup(1))
next
  case False
  have "filter (\<lambda>r. d_token r = token) (tbl_download (unit_view s)) = []"
    using False by (rule filter_absent)
  with False show ?thesis
    by (simp add: create_download_record_new get_download_record_view fetchone_def)
qed

theorem create_then_get_download_record_witness:
  "fst (create_download_record ''tok2'' ''T1.zip'' scenario) = Inr () \<and>
   fst (get_download_record ''tok2'' (snd (create_download_record ''tok2'' ''T1.zip'' scenario)))
     = Some \<lparr>d_token = ''tok2'', d_filename = ''T1.zip''\<rparr>"
proof -
  have "''tok2'' \<notin> set (map d_token (tbl_download (unit_view scenario)))"
    by (simp add: scenario_defs)
  with create_then_get_download_record [of "''tok2''" "''T1.zip''" scenario]
  show ?thesis by blast
qed

text \<open>
  C7. A second \<^verbatim>\<open>create_download_record\<close> of the same token raises
  \<^verbatim>\<open>IntegrityError\<close> (ConstraintViolation), whatever the two filenames are and
  whether the first call returned or raised.
\<close>

theorem create_download_record_twice_rejected:
  "fst (create_download_record token filename'
          (snd (create_download_record token filename s))) = Inl IntegrityError"
proof (cases "token \<in> set (map d_token (tbl_download (unit_view s)))")
  case True
  then show ?thesis by (simp add: create_download_record_dup)
next
  case False
  then show ?thesis
    by (simp add: create_download_record_dup(1) create_download_record_new(3))
qed

text \<open>In the scenario the first insert of \<open>tok2\<close> returns and the second is rejected.\<close>

theorem create_download_record_twice_rejected_witness:
  "fst (create_download_record ''tok2'' ''T1.zip'' scenario) = Inr () \<and>
   fst (create_download_record ''tok2'' ''T1.zip''
          (snd (create_download_record ''tok2'' ''T1.zip'' scenario))) = Inl IntegrityError"
proof -
  have "fst (create_download_record ''tok2'' ''T1.zip'' scenario) = Inr ()"
    by (simp add: create_download_record_def insert_download_def scenario_defs)
  with create_download_record_twice_rejected [of "''tok2''" "''T1.zip''" "''T1.zip''" scenario]
  show ?thesis by simp
qed

section \<open>Creating a task with its scope\<close>

lemma conn_execute_task_new:
  assumes "task_id \<notin> set (map t_task_id (tbl_generate_task (conn_view c file)))"
  shows "conn_execute (insert_generate_task now dataset_id task_id is_partial) c file =
           (Inr (), c\<lparr>pending := Some ((conn_view c file)\<lparr>tbl_generate_task :=
               tbl_generate_task (conn_view c file) @
                 [new_task now dataset_id task_id is_partial]\<rparr>)\<rparr>)"
  using assms by (simp add: conn_execute_def insert_generate_task_def Let_def)

lemma conn_execute_task_dup:
  assumes "task_id \<in> set (map t_task_id (tbl_generate_task (conn_view c file)))"
  shows "conn_execute (insert_generate_task now dataset_id task_id is_partial) c file =
           (Inl IntegrityError, c\<lparr>pending := Some (conn_view c file)\<rparr>)"
  using assms by (simp add: conn_execute_def insert_generate_task_def Let_def)

lemma conn_execute_scope_new:
  assumes "\<lparr>s_task_id = tid, s_filepath = fp\<rparr> \<notin> set (tbl_generate_scope (conn_view c file))"
  shows "conn_execute (insert_generate_scope tid fp) c file =
           (Inr (), c\<lparr>pending := Some ((conn_view c file)\<lparr>tbl_generate_scope :=
               tbl_generate_scope (conn_view c file) @
                 [\<lparr>s_task_id = tid, s_filepath = fp\<rparr>]\<rparr>)\<rparr>)"
  using assms by (simp add: conn_execute_def insert_generate_scope_def Let_def)

lemma conn_execute_scope_dup:
  assumes "\<lparr>s_task_id = tid, s_filepath = fp\<rparr> \<in> set (tbl_generate_scope (conn_view c file))"
  shows "conn_execute (insert_generate_scope tid fp) c file =
           (Inl IntegrityError, c\<lparr>pending := Some (conn_view c file)\<rparr>)"
  using assms by (simp add: conn_execute_def insert_generate_scope_def Let_def)

text \<open>
  The loop over the scope inserts every filepath when the filepaths are pairwise
  different and none of them is recorded for the task yet, and raises otherwise.
\<close>

lemma insert_scope_rows_ok:
  assumes "distinct fps"
      and "\<forall>fp \<in> set fps.
             \<lparr>s_task_id = tid, s_filepath = fp\<rparr> \<notin> set (tbl_generate_scope (conn_view c file))"
  shows "fst (insert_scope_rows tid fps c file) = Inr () \<and>
         conn_view (snd (insert_scope_rows tid fps c file)) file =
           (conn_view c file)\<lparr>tbl_generate_scope := tbl_generate_scope (conn_view c file) @
              map (\<lambda>fp. \<lparr>s_task_id = tid, s_filepath = fp\<rparr>) fps\<rparr>"
  using assms
proof (induction fps arbitrary: c)
  case Nil
  then show ?case by simp
next
  case (Cons fp rest)
  let ?c1 = "c\<lparr>pending := Some ((conn_view c file)\<lparr>tbl_generate_scope :=
               tbl_generate_scope (conn_view c file) @ [\<lparr>s_task_id = tid, s_filepath = fp\<rparr>]\<rparr>)\<rparr>"
  have step: "insert_scope_rows tid (fp # rest) c file = insert_scope_rows tid rest ?c1 file"
    using Cons.prems(2) by (simp add: conn_execute_scope_new)
  have "distinct rest" using Cons.prems(1) by simp
  moreover have "\<forall>fp' \<in> set rest.
      \<lparr>s_task_id = tid, s_filepath = fp'\<rparr> \<notin> set (tbl_generate_scope (conn_view ?c1 file))"
    using Cons.prems by auto
  ultimately have "fst (insert_scope_rows tid rest ?c1 file) = Inr () \<and>
         conn_view (snd (insert_scope_rows tid rest ?c1 file)) file =
           (conn_view ?c1 file)\<lparr>tbl_generate_scope := tbl_generate_scope (conn_view ?c1 file) @
              map (\<lambda>fp. \<lparr>s_task_id = tid, s_filepath = fp\<rparr>) rest\<rparr>"
    by (rule Cons.IH)
  then show ?case unfolding step by simp
qed

lemma insert_scope_rows_fail:
  assumes "\<not> (distinct fps \<and>
      (\<forall>fp \<in> set fps.
         \<lparr>s_task_id = tid, s_filepath = fp\<rparr> \<notin> set (tbl_generate_scope (conn_view c file))))"
  shows "fst (insert_scope_rows tid fps c file) = Inl IntegrityError"
  using assms
proof (induction fps arbitrary: c)
  case Nil
  then show ?case by simp
next
  case (Cons fp rest)
  show ?case
  proof (cases "\<lparr>s_task_id = tid, s_filepath = fp\<rparr> \<in> set (tbl_generate_scope (conn_view c file))")
    case True
    then show ?thesis by (simp add: conn_execute_scope_dup)
  next
    case False
    let ?c1 = "c\<lparr>pending := Some ((conn_view c file)\<lparr>tbl_generate_scope :=
               tbl_generate_scope (conn_view c file) @ [\<lparr>s_task_id = tid, s_filepath = fp\<rparr>]\<rparr>)\<rparr>"
    have step: "insert_scope_rows tid (fp # rest) c file = insert_scope_rows tid rest ?c1 file"
      using False by (simp add: conn_execute_scope_new)
    have "\<not> (distinct rest \<and>
      (\<forall>fp' \<in> set rest.
         \<lparr>s_task_id = tid, s_filepath = fp'\<rparr> \<notin> set (tbl_generate_scope (conn_view ?c1 file))))"
      using Cons.prems False by auto
    then have "fst (insert_scope_rows tid rest ?c1 file) = Inl IntegrityError"
      by (rule Cons.IH)
    then show ?thesis unfolding step .
  qed
qed

lemma insert_scope_rows_conn_id: "conn_id (snd (insert_scope_rows tid fps c file)) = conn_id c"
proof (induction fps arbitrary: c)
  case Nil
  then show ?case by simp
next
  case (Cons fp rest)
  then show ?case
    by (cases "\<lparr>s_task_id = tid, s_filepath = fp\<rparr> \<in> set (tbl_generate_scope (conn_view c file))")
       (simp_all add: conn_execute_scope_dup conn_execute_scope_new)
qed

text \<open>The three ways \<^verbatim>\<open>create_task_rows\<close> ends.\<close>

lemma create_task_rows_ok:
  assumes fresh: "task_id \<notin> set (map t_task_id (tbl_generate_task (unit_view s)))"
      and dist: "distinct generate_scope"
      and free: "\<forall>fp \<in> set generate_scope.
                   \<lparr>s_task_id = task_id, s_filepath = fp\<rparr> \<notin> set (tbl_generate_scope (unit_view s))"
  shows "fst (create_task_rows now dataset_id task_id is_partial generate_scope s) =
           Inr (Some (Some now, task_id, Some ''PENDING'', None))"
    and "db_file (snd (create_task_rows now dataset_id task_id is_partial generate_scope s)) =
           (unit_view s)\<lparr>tbl_generate_task := tbl_generate_task (unit_view s) @
                            [new_task now dataset_id task_id is_partial],
                         tbl_generate_scope := tbl_generate_scope (unit_view s) @
                            map (\<lambda>fp. \<lparr>s_task_id = task_id, s_filepath = fp\<rparr>) generate_scope\<rparr>"
    and "unit_view (snd (create_task_rows now dataset_id task_id is_partial generate_scope s)) =
           db_file (snd (create_task_rows now dataset_id task_id is_partial generate_scope s))"
proof -
  obtain c0 s1 where g: "get_db s = (c0, s1)" by (cases "get_db s")
  have v0: "conn_view c0 (db_file s1) = unit_view s"
    using get_db_conn_view [of s] get_db_file [of s] by (simp add: g)
  let ?db1 = "(unit_view s)\<lparr>tbl_generate_task := tbl_generate_task (unit_view s) @
                  [new_task now dataset_id task_id is_partial]\<rparr>"
  let ?c1 = "c0\<lparr>pending := Some ?db1\<rparr>"
  have e1: "conn_execute (insert_generate_task now dataset_id task_id is_partial) c0 (db_file s1)
              = (Inr (), ?c1)"
    using fresh conn_execute_task_new [of task_id c0 "db_file s1"] by (simp add: v0)
  obtain r2 c2 where e2: "insert_scope_rows task_id generate_scope ?c1 (db_file s1) = (r2, c2)"
    by (cases "insert_scope_rows task_id generate_scope ?c1 (db_file s1)")
  have "\<forall>fp \<in> set generate_scope.
          \<lparr>s_task_id = task_id, s_filepath = fp\<rparr>
            \<notin> set (tbl_generate_scope (conn_view ?c1 (db_file s1)))"
    using free by simp
  from insert_scope_rows_ok [OF dist this]
  have r2: "r2 = Inr ()"
   and v2: "conn_view c2 (db_file s1) = ?db1\<lparr>tbl_generate_scope := tbl_generate_scope ?db1 @
              map (\<lambda>fp. \<lparr>s_task_id = task_id, s_filepath = fp\<rparr>) generate_scope\<rparr>"
    by (simp_all add: e2)
  have flt: "filter (\<lambda>r. t_task_id r = task_id) (tbl_generate_task (unit_view s)) = []"
    using fresh by (rule filter_absent)
  have res: "create_task_rows now dataset_id task_id is_partial generate_scope s =
          (Inr (fetchone (map created_columns (filter (\<lambda>r. t_task_id r = task_id)
                    (tbl_generate_task (conn_view c2 (db_file s1)))))),
           s1\<lparr>db_file := conn_view c2 (db_file s1), g_db := Some (c2\<lparr>pending := None\<rparr>)\<rparr>)"
    by (simp add: create_task_rows_def g e1 e2 r2 conn_commit_def)
  show "fst (create_task_rows now dataset_id task_id is_partial generate_scope s) =
           Inr (Some (Some now, task_id, Some ''PENDING'', None))"
    by (simp add: res v2 flt fetchone_def created_columns_def new_task_def)
  show "db_file (snd (create_task_rows now dataset_id task_id is_partial generate_scope s)) =
           (unit_view s)\<lparr>tbl_generate_task := tbl_generate_task (unit_view s) @
                            [new_task now dataset_id task_id is_partial],
                         tbl_generate_scope := tbl_generate_scope (unit_view s) @
                            map (\<lambda>fp. \<lparr>s_task_id = task_id, s_filepath = fp\<rparr>) generate_scope\<rparr>"
    by (simp add: res v2)
  show "unit_view (snd (create_task_rows now dataset_id task_id is_partial generate_scope s)) =
           db_file (snd (create_task_rows now dataset_id task_id is_partial generate_scope s))"
    by (simp add: res)
qed

lemma create_task_rows_fail:
  assumes "\<not> (task_id \<notin> set (map t_task_id (tbl_generate_task (unit_view s))) \<and>
      distinct generate_scope \<and>
      (\<forall>fp \<in> set generate_scope.
         \<lparr>s_task_id = task_id, s_filepath = fp\<rparr> \<notin> set (tbl_generate_scope (unit_view s))))"
  shows "fst (create_task_rows now dataset_id task_id is_partial generate_scope s)
           = Inl IntegrityError"
proof -
  obtain c0 s1 where g: "get_db s = (c0, s1)" by (cases "get_db s")
  have v0: "conn_view c0 (db_file s1) = unit_view s"
    using get_db_conn_view [of s] get_db_file [of s] by (simp add: g)
  show ?thesis
  proof (cases "task_id \<in> set (map t_task_id (tbl_generate_task (unit_view s)))")
    case True
    then have "conn_execute (insert_generate_task now dataset_id task_id is_partial)
                 c0 (db_file s1) = (Inl IntegrityError, c0\<lparr>pending := Some (unit_view s)\<rparr>)"
      using conn_execute_task_dup [of task_id c0 "db_file s1"] by (simp add: v0)
    then show ?thesis by (simp add: create_task_rows_def g)
  next
    case False
    let ?db1 = "(unit_view s)\<lparr>tbl_generate_task := tbl_generate_task (unit_view s) @
                  [new_task now dataset_id task_id is_partial]\<rparr>"
    let ?c1 = "c0\<lparr>pending := Some ?db1\<rparr>"
    have e1: "conn_execute (insert_generate_task now dataset_id task_id is_partial)
                c0 (db_file s1) = (Inr (), ?c1)"
      using False conn_execute_task_new [of task_id c0 "db_file s1"] by (simp add: v0)
    have "\<not> (distinct generate_scope \<and> (\<forall>fp \<in> set generate_scope.
          \<lparr>s_task_id = task_id, s_filepath = fp\<rparr>
            \<notin> set (tbl_generate_scope (conn_view ?c1 (db_file s1)))))"
      using assms False by simp
    then have "fst (insert_scope_rows task_id generate_scope ?c1 (db_file s1))
                 = Inl IntegrityError"
      by (rule insert_scope_rows_fail)
    then show ?thesis
      by (simp add: create_task_rows_def g e1 split_beta split: sum.splits)
  qed
qed

lemma create_task_rows_raise_file:
  assumes "fst (create_task_rows now dataset_id task_id is_partial generate_scope s) = Inl e"
  shows "db_file (snd (create_task_rows now dataset_id task_id is_partial generate_scope s))
           = db_file s"
  using assms
  by (auto simp: create_task_rows_def conn_commit_def split_beta Let_def
        split: sum.splits prod.splits)

lemma close_db_file [simp]: "db_file (close_db s) = db_file s"
  by (simp add: close_db_def split: option.splits)

text \<open>
  C1. \<^verbatim>\<open>create_task_rows\<close> returns exactly when the schema accepts the rows: the task
  id is not in \<^verbatim>\<open>generate_task\<close> yet, the scope is a set, and none of its filepaths
  is recorded for the task. Whenever it returns, it has appended one task row with
  status \<open>PENDING\<close> and \<open>initiated\<close> the current time and one scope row for each
  filepath, the file holds all of them by the one commit (no transaction is left
  open), and the row returned is that of the new task: \<open>initiated\<close>, \<open>task_id\<close>,
  \<open>status\<close> and \<open>date_done\<close>.
\<close>

theorem create_task_rows_commits_task_and_scope:
  assumes "create_task_rows now dataset_id task_id is_partial generate_scope s = (res, s')"
  shows "((\<exists>row. res = Inr row) \<longleftrightarrow>
            task_id \<notin> set (map t_task_id (tbl_generate_task (unit_view s))) \<and>
            distinct generate_scope \<and>
            (\<forall>fp \<in> set generate_scope.
               \<lparr>s_task_id = task_id, s_filepath = fp\<rparr> \<notin> set (tbl_generate_scope (unit_view s)))) \<and>
         (\<forall>row. res = Inr row \<longrightarrow>
            row = Some (Some now, task_id, Some ''PENDING'', None) \<and>
            db_file s' =
              (unit_view s)
                \<lparr>tbl_generate_task := tbl_generate_task (unit_view s) @
                   [\<lparr>t_dataset_id = dataset_id, t_task_id = task_id,
                     t_status = Some ''PENDING'', t_is_partial = is_partial,
                     t_initiated = Some now, t_date_done = None\<rparr>],
                 tbl_generate_scope := tbl_generate_scope (unit_view s) @
                   map (\<lambda>fp. \<lparr>s_task_id = task_id, s_filepath = fp\<rparr>) generate_scope\<rparr> \<and>
            unit_view s' = db_file s')"
proof -
  let ?call = "create_task_rows now dataset_id task_id is_partial generate_scope s"
  let ?accepted = "task_id \<notin> set (map t_task_id (tbl_generate_task (unit_view s))) \<and>
            distinct generate_scope \<and>
            (\<forall>fp \<in> set generate_scope.
               \<lparr>s_task_id = task_id, s_filepath = fp\<rparr> \<notin> set (tbl_generate_scope (unit_view s)))"
  have res: "fst ?call = res" and s': "snd ?call = s'" using assms by simp_all
  have rejected: "res = Inl IntegrityError" if "\<not> ?accepted"
    using create_task_rows_fail [OF that, of now dataset_id is_partial] res by simp
  have returned: "res = Inr (Some (Some now, task_id, Some ''PENDING'', None)) \<and>
      db_file s' =
              (unit_view s)
                \<lparr>tbl_generate_task := tbl_generate_task (unit_view s) @
                   [\<lparr>t_dataset_id = dataset_id, t_task_id = task_id,
                     t_status = Some ''PENDING'', t_is_partial = is_partial,
                     t_initiated = Some now, t_date_done = None\<rparr>],
                 tbl_generate_scope := tbl_generate_scope (unit_view s) @
                   map (\<lambda>fp. \<lparr>s_task_id = task_id, s_filepath = fp\<rparr>) generate_scope\<rparr> \<and>
      unit_view s' = db_file s'"
    if "?accepted"
  proof -
    from that have a: "task_id \<notin> set (map t_task_id (tbl_generate_task (unit_view s)))"
      and b: "distinct generate_scope"
      and c: "\<forall>fp \<in> set generate_scope.
               \<lparr>s_task_id = task_id, s_filepath = fp\<rparr> \<notin> set (tbl_generate_scope (unit_view s))"
      by simp_all
    from create_task_rows_ok [OF a b c, of now dataset_id is_partial]
    show ?thesis by (simp add: res s' new_task_def)
  qed
  have iff: "(\<exists>row. res = Inr row) \<longleftrightarrow> ?accepted"
  proof
    assume "\<exists>row. res = Inr row"
    then show "?accepted" using rejected by (cases "?accepted") auto
  next
    assume "?accepted"
    then show "\<exists>row. res = Inr row" using returned by blast
  qed
  have post: "row = Some (Some now, task_id, Some ''PENDING'', None) \<and>
      db_file s' =
              (unit_view s)
                \<lparr>tbl_generate_task := tbl_generate_task (unit_view s) @
                   [\<lparr>t_dataset_id = dataset_id, t_task_id = task_id,
                     t_status = Some ''PENDING'', t_is_partial = is_partial,
                     t_initiated = Some now, t_date_done = None\<rparr>],
                 tbl_generate_scope := tbl_generate_scope (unit_view s) @
                   map (\<lambda>fp. \<lparr>s_task_id = task_id, s_filepath = fp\<rparr>) generate_scope\<rparr> \<and>
      unit_view s' = db_file s'"
    if "res = Inr row" for row
  proof -
    from that iff have "?accepted" by blast
    from returned [OF this] that show ?thesis by simp
  qed
  from iff post show ?thesis by blast
qed

text \<open>
  The scenario of the spec with a new task \<open>T9\<close> of \<open>D1\<close> and the scope \<open>a.txt\<close>,
  \<open>b.txt\<close>; a second task \<open>T1\<close> is rejected.
\<close>

theorem create_task_rows_commits_task_and_scope_witness:
  "fst (create_task_rows ''2020-02-01 00:00:00'' ''D1'' ''T9'' False [''a.txt'', ''b.txt'']
          scenario)
     = Inr (Some (Some ''2020-02-01 00:00:00'', ''T9'', Some ''PENDING'', None)) \<and>
   tbl_generate_task
     (db_file (snd (create_task_rows ''2020-02-01 00:00:00'' ''D1'' ''T9'' False
                      [''a.txt'', ''b.txt''] scenario))) =
     tbl_generate_task scenario_db @
       [\<lparr>t_dataset_id = ''D1'', t_task_id = ''T9'', t_status = Some ''PENDING'',
         t_is_partial = False, t_initiated = Some ''2020-02-01 00:00:00'',
         t_date_done = None\<rparr>] \<and>
   tbl_generate_scope
     (db_file (snd (create_task_rows ''2020-02-01 00:00:00'' ''D1'' ''T9'' False
                      [''a.txt'', ''b.txt''] scenario))) =
     tbl_generate_scope scenario_db @
       [\<lparr>s_task_id = ''T9'', s_filepath = ''a.txt''\<rparr>,
        \<lparr>s_task_id = ''T9'', s_filepath = ''b.txt''\<rparr>] \<and>
   unit_view (snd (create_task_rows ''2020-02-01 00:00:00'' ''D1'' ''T9'' False
                     [''a.txt'', ''b.txt''] scenario)) =
     db_file (snd (create_task_rows ''2020-02-01 00:00:00'' ''D1'' ''T9'' False
                     [''a.txt'', ''b.txt''] scenario)) \<and>
   fst (create_task_rows ''2020-02-01 00:00:00'' ''D1'' ''T1'' False [''a.txt'', ''b.txt'']
          scenario) = Inl IntegrityError"
proof -
  let ?call = "create_task_rows ''2020-02-01 00:00:00'' ''D1'' ''T9'' False
                 [''a.txt'', ''b.txt''] scenario"
  have v: "unit_view scenario = scenario_db"
    by (simp add: scenario_def unit_view_def)
  have r: "fst ?call = Inr (Some (Some ''2020-02-01 00:00:00'', ''T9'', Some ''PENDING'', None))"
    by (simp add: create_task_rows_def insert_generate_task_def insert_generate_scope_def
          new_task_def created_columns_def scenario_defs)
  have d: "fst (create_task_rows ''2020-02-01 00:00:00'' ''D1'' ''T1'' False
                  [''a.txt'', ''b.txt''] scenario) = Inl IntegrityError"
    by (simp add: create_task_rows_def insert_generate_task_def insert_generate_scope_def
          new_task_def created_columns_def scenario_defs)
  have "?call = (fst ?call, snd ?call)" by simp
  from create_task_rows_commits_task_and_scope [OF this] r
  have "db_file (snd ?call) =
       (unit_view scenario)
         \<lparr>tbl_generate_task := tbl_generate_task (unit_view scenario) @
            [\<lparr>t_dataset_id = ''D1'', t_task_id = ''T9'', t_status = Some ''PENDING'',
              t_is_partial = False, t_initiated = Some ''2020-02-01 00:00:00'',
              t_date_done = None\<rparr>],
          tbl_generate_scope := tbl_generate_scope (unit_view scenario) @
            map (\<lambda>fp. \<lparr>s_task_id = ''T9'', s_filepath = fp\<rparr>) [''a.txt'', ''b.txt'']\<rparr> \<and>
     unit_view (snd ?call) = db_file (snd ?call)"
    by blast
  with r d show ?thesis by (simp add: v)
qed

text \<open>
  At the raise. When \<^verbatim>\<open>create_task_rows\<close> raises, at the task row or at any scope
  row, the file is as it was: another unit of work reads what it read before, a listing
  of tasks included, and a \<^verbatim>\<open>close_db\<close> that follows leaves it so. When it returns,
  the file holds the task row and every scope row.
\<close>

lemma create_task_rows_atomic:
  assumes "create_task_rows now dataset_id task_id is_partial generate_scope s = (res, s')"
  shows "(\<forall>e. res = Inl e \<longrightarrow>
            db_file s' = db_file s \<and>
            unit_view (other_unit s') = db_file s \<and>
            (\<forall>d T. fst (get_task_rows d T (other_unit s'))
                     = fst (get_task_rows d T (other_unit s))) \<and>
            db_file (close_db s') = db_file s) \<and>
         (\<forall>row. res = Inr row \<longrightarrow>
            \<lparr>t_dataset_id = dataset_id, t_task_id = task_id, t_status = Some ''PENDING'',
              t_is_partial = is_partial, t_initiated = Some now, t_date_done = None\<rparr>
              \<in> set (tbl_generate_task (db_file s')) \<and>
            (\<forall>fp \<in> set generate_scope.
               \<lparr>s_task_id = task_id, s_filepath = fp\<rparr> \<in> set (tbl_generate_scope (db_file s'))))"
proof -
  let ?call = "create_task_rows now dataset_id task_id is_partial generate_scope s"
  have res: "fst ?call = res" and s': "snd ?call = s'" using assms by simp_all
  have raised: "db_file s' = db_file s" if "res = Inl e" for e
    using create_task_rows_raise_file [of now dataset_id task_id is_partial generate_scope s e]
      that res s' by simp
  have returned:
    "\<lparr>t_dataset_id = dataset_id, t_task_id = task_id, t_status = Some ''PENDING'',
       t_is_partial = is_partial, t_initiated = Some now, t_date_done = None\<rparr>
       \<in> set (tbl_generate_task (db_file s')) \<and>
     (\<forall>fp \<in> set generate_scope.
        \<lparr>s_task_id = task_id, s_filepath = fp\<rparr> \<in> set (tbl_generate_scope (db_file s')))"
    if "res = Inr row" for row
  proof -
    have ok: "task_id \<notin> set (map t_task_id (tbl_generate_task (unit_view s))) \<and>
      distinct generate_scope \<and>
      (\<forall>fp \<in> set generate_scope.
         \<lparr>s_task_id = task_id, s_filepath = fp\<rparr> \<notin> set (tbl_generate_scope (unit_view s)))"
    proof (rule ccontr)
      assume "\<not> ?thesis"
      then have "fst ?call = Inl IntegrityError" by (rule create_task_rows_fail)
      with that res show False by simp
    qed
    then have "db_file (snd ?call) =
           (unit_view s)\<lparr>tbl_generate_task := tbl_generate_task (unit_view s) @
                            [new_task now dataset_id task_id is_partial],
                         tbl_generate_scope := tbl_generate_scope (unit_view s) @
                            map (\<lambda>fp. \<lparr>s_task_id = task_id, s_filepath = fp\<rparr>) generate_scope\<rparr>"
      by (simp add: create_task_rows_ok(2))
    then show ?thesis by (simp add: s' new_task_def)
  qed
  show ?thesis
  proof (intro conjI allI impI)
    fix e assume e: "res = Inl e"
    show "db_file s' = db_file s" using e by (rule raised)
    show "unit_view (other_unit s') = db_file s" using raised [OF e] by simp
    show "db_file (close_db s') = db_file s" using raised [OF e] by simp
    fix d T
    have "unit_view (other_unit s') = unit_view (other_unit s)"
      using raised [OF e] by simp
    then show "fst (get_task_rows d T (other_unit s')) = fst (get_task_rows d T (other_unit s))"
      by (simp add: get_task_rows_view)
  next
    fix row assume "res = Inr row"
    from returned [OF this]
    show "\<lparr>t_dataset_id = dataset_id, t_task_id = task_id, t_status = Some ''PENDING'',
              t_is_partial = is_partial, t_initiated = Some now, t_date_done = None\<rparr>
              \<in> set (tbl_generate_task (db_file s'))"
      and "\<forall>fp \<in> set generate_scope.
               \<lparr>s_task_id = task_id, s_filepath = fp\<rparr> \<in> set (tbl_generate_scope (db_file s'))"
      by simp_all
  qed
qed

text \<open>
  In the scenario a scope that names \<open>a.txt\<close> twice is rejected at its second row,
  after the task row and the first scope row were inserted: the open transaction holds
  the task row, the file does not, and another unit of work lists what it listed
  before.
\<close>

lemma create_task_rows_atomic_scenario:
  "fst (create_task_rows ''2020-02-01 00:00:00'' ''D1'' ''T9'' False [''a.txt'', ''a.txt'']
          scenario) = Inl IntegrityError \<and>
   ''T9'' \<in> set (map t_task_id (tbl_generate_task (unit_view
      (snd (create_task_rows ''2020-02-01 00:00:00'' ''D1'' ''T9'' False [''a.txt'', ''a.txt'']
              scenario))))) \<and>
   db_file (snd (create_task_rows ''2020-02-01 00:00:00'' ''D1'' ''T9'' False
                   [''a.txt'', ''a.txt''] scenario)) = scenario_db \<and>
   ''T9'' \<notin> set (map t_task_id (tbl_generate_task scenario_db)) \<and>
   fst (get_task_rows ''D1'' '''' (other_unit
      (snd (create_task_rows ''2020-02-01 00:00:00'' ''D1'' ''T9'' False [''a.txt'', ''a.txt'']
              scenario)))) =
     [(Some ''2020-01-01 10:00:00'', Some ''2020-01-01 10:05:00'', ''T1'', Some ''SUCCESS'', False),
      (Some ''2020-01-04 10:00:00'', None, ''T3'', None, True)]"
proof -
  let ?call = "create_task_rows ''2020-02-01 00:00:00'' ''D1'' ''T9'' False
                 [''a.txt'', ''a.txt''] scenario"
  have r: "fst ?call = Inl IntegrityError"
    by (simp add: create_task_rows_def insert_generate_task_def insert_generate_scope_def
          new_task_def scenario_defs)
  have p: "''T9'' \<in> set (map t_task_id (tbl_generate_task (unit_view (snd ?call))))"
    by (simp add: create_task_rows_def insert_generate_task_def insert_generate_scope_def
          new_task_def scenario_defs)
  have f: "db_file scenario = scenario_db" by (simp add: scenario_def)
  have n: "''T9'' \<notin> set (map t_task_id (tbl_generate_task scenario_db))"
    by (simp add: scenario_db_def)
  have l: "fst (get_task_rows ''D1'' '''' (other_unit scenario)) =
     [(Some ''2020-01-01 10:00:00'', Some ''2020-01-01 10:05:00'', ''T1'', Some ''SUCCESS'', False),
      (Some ''2020-01-04 10:00:00'', None, ''T3'', None, True)]"
    by (simp add: get_task_rows_def task_selected_def task_columns_def other_unit_def
          scenario_defs)
  have "?call = (fst ?call, snd ?call)" by simp
  from create_task_rows_atomic [OF this] r
  have "db_file (snd ?call) = db_file scenario \<and>
        fst (get_task_rows ''D1'' '''' (other_unit (snd ?call)))
          = fst (get_task_rows ''D1'' '''' (other_unit scenario))"
    by blast
  with r p f n l show ?thesis by simp
qed

section \<open>The connection of a unit of work\<close>

lemma get_db_connected: "g_db s = Some c \<Longrightarrow> get_db s = (c, s)"
  by (simp add: get_db_def)

lemma get_db_connects:
  "g_db s = None \<Longrightarrow>
     connects (snd (get_db s)) = Suc (connects s) \<and>
     g_db (snd (get_db s)) = Some (fst (get_db s)) \<and>
     conn_id (fst (get_db s)) = connects s \<and>
     open_conns (snd (get_db s)) = conn_id (fst (get_db s)) # open_conns s"
  by (simp add: get_db_def Let_def)

lemma get_db_g: "g_db (snd (get_db s)) = Some (fst (get_db s))"
  by (simp add: get_db_def Let_def split: option.splits)

text \<open>
  Every operation leaves the connection that its call of \<^verbatim>\<open>get_db\<close> returned in
  \<open>g\<close>, and opens and closes nothing else.
\<close>

lemma create_download_record_conn:
  "connects (snd (create_download_record token filename s)) = connects (snd (get_db s)) \<and>
   open_conns (snd (create_download_record token filename s)) = open_conns (snd (get_db s)) \<and>
   map_option conn_id (g_db (snd (create_download_record token filename s)))
     = Some (conn_id (fst (get_db s)))"
  by (simp add: create_download_record_def conn_execute_def conn_commit_def Let_def split_beta
        split: sum.splits)

lemma create_task_rows_conn:
  "connects (snd (create_task_rows now dataset_id task_id is_partial generate_scope s))
     = connects (snd (get_db s)) \<and>
   open_conns (snd (create_task_rows now dataset_id task_id is_partial generate_scope s))
     = open_conns (snd (get_db s)) \<and>
   map_option conn_id
       (g_db (snd (create_task_rows now dataset_id task_id is_partial generate_scope s)))
     = Some (conn_id (fst (get_db s)))"
proof -
  obtain c0 s1 where g: "get_db s = (c0, s1)" by (cases "get_db s")
  obtain r1 c1 where e1:
    "conn_execute (insert_generate_task now dataset_id task_id is_partial) c0 (db_file s1)
       = (r1, c1)"
    by (cases "conn_execute (insert_generate_task now dataset_id task_id is_partial)
                 c0 (db_file s1)")
  have i1: "conn_id c1 = conn_id c0"
    using e1 by (auto simp: conn_execute_def Let_def split: sum.splits)
  obtain r2 c2 where e2: "insert_scope_rows task_id generate_scope c1 (db_file s1) = (r2, c2)"
    by (cases "insert_scope_rows task_id generate_scope c1 (db_file s1)")
  have i2: "conn_id c2 = conn_id c0"
    using insert_scope_rows_conn_id [of task_id generate_scope c1 "db_file s1"] i1
    by (simp add: e2)
  show ?thesis
    by (cases r1; cases r2) (simp_all add: create_task_rows_def g e1 e2 i1 i2 conn_commit_def)
qed

lemma after_call_conn:
  "connects (after_call call s) = connects (snd (get_db s)) \<and>
   open_conns (after_call call s) = open_conns (snd (get_db s)) \<and>
   map_option conn_id (g_db (after_call call s)) = Some (conn_id (fst (get_db s)))"
proof (cases call)
  case (Create_download_record token filename)
  then show ?thesis using create_download_record_conn [of token filename s] by simp
next
  case (Create_task_rows now dataset_id task_id is_partial generate_scope)
  then show ?thesis
    using create_task_rows_conn [of now dataset_id task_id is_partial generate_scope s] by simp
qed (simp_all add: get_download_record_view get_task_rows_view get_package_row_view
       get_generate_scope_filepaths_view get_task_for_package_view get_db_g)

lemma unit_of_work_connected:
  assumes "g_db s = Some c"
  shows "connects (unit_of_work calls s) = connects s \<and>
         open_conns (unit_of_work calls s) = open_conns s \<and>
         map_option conn_id (g_db (unit_of_work calls s)) = Some (conn_id c)"
  using assms
proof (induction calls arbitrary: s c)
  case Nil
  then show ?case by (simp add: unit_of_work_def)
next
  case (Cons call calls)
  have g: "get_db s = (c, s)" using Cons.prems by (rule get_db_connected)
  from after_call_conn [of call s]
  have a: "connects (after_call call s) = connects s"
    "open_conns (after_call call s) = open_conns s"
    "map_option conn_id (g_db (after_call call s)) = Some (conn_id c)"
    by (simp_all add: g)
  from a(3) obtain c' where c': "g_db (after_call call s) = Some c'" "conn_id c' = conn_id c"
    by (cases "g_db (after_call call s)") auto
  from Cons.IH [OF c'(1)] a c'(2)
  have "connects (unit_of_work calls (after_call call s)) = connects s \<and>
         open_conns (unit_of_work calls (after_call call s)) = open_conns s \<and>
         map_option conn_id (g_db (unit_of_work calls (after_call call s))) = Some (conn_id c)"
    by simp
  then show ?case by (simp add: unit_of_work_def)
qed

lemma unit_of_work_first:
  assumes "g_db s = None"
  shows "connects (unit_of_work (call # calls) s) = Suc (connects s) \<and>
         open_conns (unit_of_work (call # calls) s) = connects s # open_conns s \<and>
         map_option conn_id (g_db (unit_of_work (call # calls) s)) = Some (connects s)"
proof -
  from get_db_connects [OF assms] after_call_conn [of call s]
  have a: "connects (after_call call s) = Suc (connects s)"
    "open_conns (after_call call s) = connects s # open_conns s"
    "map_option conn_id (g_db (after_call call s)) = Some (connects s)"
    by simp_all
  from a(3) obtain c' where c': "g_db (after_call call s) = Some c'" "conn_id c' = connects s"
    by (cases "g_db (after_call call s)") auto
  from unit_of_work_connected [OF c'(1), of calls] a c'(2)
  have "connects (unit_of_work calls (after_call call s)) = Suc (connects s) \<and>
         open_conns (unit_of_work calls (after_call call s)) = connects s # open_conns s \<and>
         map_option conn_id (g_db (unit_of_work calls (after_call call s))) = Some (connects s)"
    by simp
  then show ?thesis by (simp add: unit_of_work_def)
qed

lemma close_db_twice: "close_db (close_db s) = close_db s"
  by (simp add: close_db_def split: option.splits)

text \<open>
  C8. The first \<^verbatim>\<open>get_db\<close> of a unit of work opens the connection and puts it into
  \<open>g\<close>; a \<^verbatim>\<open>get_db\<close> that finds a connection in \<open>g\<close> returns it and changes nothing.
  So whatever calls into the module a unit of work makes, it opens at most one
  connection, and after its first \<^verbatim>\<open>get_db\<close> every call works on that connection and
  a further \<^verbatim>\<open>get_db\<close> returns it. \<^verbatim>\<open>close_db\<close> takes the connection out of \<open>g\<close>
  and closes it, changes nothing when there is none or when it is called again, and
  never connects; at the end of a unit of work that began without connections none is
  left open.
\<close>

theorem connection_scope:
  "(g_db s = None \<longrightarrow>
      connects (snd (get_db s)) = Suc (connects s) \<and>
      g_db (snd (get_db s)) = Some (fst (get_db s)) \<and>
      open_conns (snd (get_db s)) = conn_id (fst (get_db s)) # open_conns s) \<and>
   (\<forall>c. g_db s = Some c \<longrightarrow> get_db s = (c, s)) \<and>
   get_db (snd (get_db s)) = (fst (get_db s), snd (get_db s)) \<and>
   (g_db s = None \<longrightarrow> connects (unit_of_work calls s) \<le> Suc (connects s)) \<and>
   connects (unit_of_work calls (snd (get_db s))) = connects (snd (get_db s)) \<and>
   conn_id (fst (get_db (unit_of_work calls (snd (get_db s))))) = conn_id (fst (get_db s)) \<and>
   (\<forall>c. g_db s = Some c \<longrightarrow>
      g_db (close_db s) = None \<and>
      open_conns (close_db s) = removeAll (conn_id c) (open_conns s) \<and>
      conn_id c \<notin> set (open_conns (close_db s))) \<and>
   (g_db s = None \<longrightarrow> close_db s = s) \<and>
   close_db (close_db s) = close_db s \<and>
   connects (close_db s) = connects s \<and>
   (g_db s = None \<and> open_conns s = [] \<longrightarrow>
      open_conns (close_db (unit_of_work calls s)) = [])"
proof -
  let ?s1 = "snd (get_db s)"
  let ?c = "fst (get_db s)"
  have g1: "g_db ?s1 = Some ?c" by (rule get_db_g)
  have lazy: "g_db s = None \<longrightarrow>
      connects ?s1 = Suc (connects s) \<and> g_db ?s1 = Some ?c \<and>
      open_conns ?s1 = conn_id ?c # open_conns s"
    using get_db_connects [of s] by simp
  have reuse: "\<forall>c. g_db s = Some c \<longrightarrow> get_db s = (c, s)"
    by (simp add: get_db_connected)
  have again: "get_db ?s1 = (?c, ?s1)" using g1 by (rule get_db_connected)
  have once: "g_db s = None \<longrightarrow> connects (unit_of_work calls s) \<le> Suc (connects s)"
  proof
    assume none: "g_db s = None"
    show "connects (unit_of_work calls s) \<le> Suc (connects s)"
    proof (cases calls)
      case Nil
      then show ?thesis by (simp add: unit_of_work_def)
    next
      case (Cons call rest)
      then show ?thesis using unit_of_work_first [OF none, of call rest] by simp
    qed
  qed
  have kept: "connects (unit_of_work calls ?s1) = connects ?s1"
    using unit_of_work_connected [OF g1, of calls] by simp
  have same: "conn_id (fst (get_db (unit_of_work calls ?s1))) = conn_id ?c"
  proof -
    from unit_of_work_connected [OF g1, of calls]
    obtain c' where c': "g_db (unit_of_work calls ?s1) = Some c'" "conn_id c' = conn_id ?c"
      by (cases "g_db (unit_of_work calls ?s1)") auto
    from get_db_connected [OF c'(1)] c'(2) show ?thesis by simp
  qed
  have closes: "\<forall>c. g_db s = Some c \<longrightarrow>
      g_db (close_db s) = None \<and>
      open_conns (close_db s) = removeAll (conn_id c) (open_conns s) \<and>
      conn_id c \<notin> set (open_conns (close_db s))"
    by (simp add: close_db_def)
  have noop: "g_db s = None \<longrightarrow> close_db s = s"
    by (simp add: close_db_def)
  have twice: "close_db (close_db s) = close_db s"
    by (rule close_db_twice)
  have quiet: "connects (close_db s) = connects s"
    by (simp add: close_db_def split: option.splits)
  have released: "g_db s = None \<and> open_conns s = [] \<longrightarrow>
      open_conns (close_db (unit_of_work calls s)) = []"
  proof
    assume a: "g_db s = None \<and> open_conns s = []"
    show "open_conns (close_db (unit_of_work calls s)) = []"
    proof (cases calls)
      case Nil
      then show ?thesis using a by (simp add: unit_of_work_def close_db_def)
    next
      case (Cons call rest)
      from a have none: "g_db s = None" and empty: "open_conns s = []" by simp_all
      from unit_of_work_first [OF none, of call rest] empty
      have o: "open_conns (unit_of_work calls s) = [connects s]"
        and i: "map_option conn_id (g_db (unit_of_work calls s)) = Some (connects s)"
        by (simp_all add: Cons)
      from i obtain c' where "g_db (unit_of_work calls s) = Some c'" "conn_id c' = connects s"
        by (cases "g_db (unit_of_work calls s)") auto
      with o show ?thesis by (simp add: close_db_def)
    qed
  qed
  show ?thesis
    by (intro conjI)
       (rule lazy, rule reuse, rule again, rule once, rule kept, rule same, rule closes,
        rule noop, rule twice, rule quiet, rule released)
qed

text \<open>
  A unit of work on the scenario that lists tasks, creates a download record and a
  task and asks for the connection again: one connection, number 0, is opened, and
  \<^verbatim>\<open>close_db\<close> closes it.
\<close>

theorem connection_scope_witness:
  "g_db scenario = None \<and> open_conns scenario = [] \<and> connects scenario = 0 \<and>
   connects (snd (get_db scenario)) = 1 \<and>
   conn_id (fst (get_db scenario)) = 0 \<and>
   connects (unit_of_work
               [Get_task_rows ''D1'' '''', Create_download_record ''tok2'' ''T1.zip'',
                Create_task_rows ''2020-02-01 00:00:00'' ''D1'' ''T9'' False [''a.txt''], Get_db]
               scenario) \<le> 1 \<and>
   conn_id (fst (get_db (unit_of_work
               [Get_task_rows ''D1'' '''', Create_download_record ''tok2'' ''T1.zip'',
                Create_task_rows ''2020-02-01 00:00:00'' ''D1'' ''T9'' False [''a.txt''], Get_db]
               (snd (get_db scenario))))) = 0 \<and>
   open_conns (close_db (unit_of_work
               [Get_task_rows ''D1'' '''', Create_download_record ''tok2'' ''T1.zip'',
                Create_task_rows ''2020-02-01 00:00:00'' ''D1'' ''T9'' False [''a.txt''], Get_db]
               scenario)) = [] \<and>
   close_db scenario = scenario \<and>
   g_db (close_db (snd (get_db scenario))) = None \<and>
   open_conns (close_db (snd (get_db scenario))) = []"
proof -
  let ?calls = "[Get_task_rows ''D1'' '''', Create_download_record ''tok2'' ''T1.zip'',
                Create_task_rows ''2020-02-01 00:00:00'' ''D1'' ''T9'' False [''a.txt''], Get_db]"
  have g: "g_db scenario = None" and o: "open_conns scenario = []"
    and n: "connects scenario = 0"
    by (simp_all add: scenario_def)
  have c: "conn_id (fst (get_db scenario)) = 0"
    by (simp add: scenario_def get_db_def Let_def)
  have cl: "g_db (close_db (snd (get_db scenario))) = None"
    "open_conns (close_db (snd (get_db scenario))) = []"
    by (simp_all add: scenario_def get_db_def close_db_def Let_def)
  from connection_scope [of scenario ?calls] g o n c cl
  show ?thesis by simp
qed

section \<open>Scope rows and their task\<close>

text \<open>
  The module inserts a scope row only after the row of its task, in the same
  transaction, and deletes nothing: when every scope row has its task before a call,
  in the file and in what the unit of work sees, the same holds after it, whether the
  call returned or raised.
\<close>

lemma insert_scope_rows_view:
  "\<exists>ins. conn_view (snd (insert_scope_rows tid fps c file)) file =
            (conn_view c file)\<lparr>tbl_generate_scope := tbl_generate_scope (conn_view c file) @
               map (\<lambda>fp. \<lparr>s_task_id = tid, s_filepath = fp\<rparr>) ins\<rparr>"
proof (induction fps arbitrary: c)
  case Nil
  have "conn_view (snd (insert_scope_rows tid [] c file)) file =
            (conn_view c file)\<lparr>tbl_generate_scope := tbl_generate_scope (conn_view c file) @
               map (\<lambda>fp. \<lparr>s_task_id = tid, s_filepath = fp\<rparr>) []\<rparr>"
    by simp
  then show ?case by (rule exI)
next
  case (Cons fp rest)
  show ?case
  proof (cases "\<lparr>s_task_id = tid, s_filepath = fp\<rparr> \<in> set (tbl_generate_scope (conn_view c file))")
    case True
    then have "conn_view (snd (insert_scope_rows tid (fp # rest) c file)) file =
            (conn_view c file)\<lparr>tbl_generate_scope := tbl_generate_scope (conn_view c file) @
               map (\<lambda>fp. \<lparr>s_task_id = tid, s_filepath = fp\<rparr>) []\<rparr>"
      by (simp add: conn_execute_scope_dup)
    then show ?thesis by (rule exI)
  next
    case False
    let ?c1 = "c\<lparr>pending := Some ((conn_view c file)\<lparr>tbl_generate_scope :=
               tbl_generate_scope (conn_view c file) @ [\<lparr>s_task_id = tid, s_filepath = fp\<rparr>]\<rparr>)\<rparr>"
    have step: "insert_scope_rows tid (fp # rest) c file = insert_scope_rows tid rest ?c1 file"
      using False by (simp add: conn_execute_scope_new)
    from Cons.IH [of ?c1] obtain ins' where
      "conn_view (snd (insert_scope_rows tid rest ?c1 file)) file =
            (conn_view ?c1 file)\<lparr>tbl_generate_scope := tbl_generate_scope (conn_view ?c1 file) @
               map (\<lambda>fp. \<lparr>s_task_id = tid, s_filepath = fp\<rparr>) ins'\<rparr>"
      by blast
    then have "conn_view (snd (insert_scope_rows tid (fp # rest) c file)) file =
            (conn_view c file)\<lparr>tbl_generate_scope := tbl_generate_scope (conn_view c file) @
               map (\<lambda>fp. \<lparr>s_task_id = tid, s_filepath = fp\<rparr>) (fp # ins')\<rparr>"
      unfolding step by simp
    then show ?thesis by (rule exI)
  qed
qed

lemma scope_rows_have_task_extend:
  assumes "scope_rows_have_task db"
      and "ins = [] \<or> tid \<in> set (map t_task_id (tbl_generate_task db @ ts))"
  shows "scope_rows_have_task
           (db\<lparr>tbl_generate_task := tbl_generate_task db @ ts,
               tbl_generate_scope := tbl_generate_scope db @
                 map (\<lambda>fp. \<lparr>s_task_id = tid, s_filepath = fp\<rparr>) ins\<rparr>)"
  using assms by (auto simp: scope_rows_have_task_def list_all_iff)

lemma create_task_rows_view:
  "\<exists>ts ins.
     unit_view (snd (create_task_rows now dataset_id task_id is_partial generate_scope s)) =
       (unit_view s)\<lparr>tbl_generate_task := tbl_generate_task (unit_view s) @ ts,
                     tbl_generate_scope := tbl_generate_scope (unit_view s) @
                       map (\<lambda>fp. \<lparr>s_task_id = task_id, s_filepath = fp\<rparr>) ins\<rparr> \<and>
     ((task_id \<in> set (map t_task_id (tbl_generate_task (unit_view s))) \<and>
       ts = [] \<and> ins = []) \<or>
      (task_id \<notin> set (map t_task_id (tbl_generate_task (unit_view s))) \<and>
       ts = [new_task now dataset_id task_id is_partial]))"
proof -
  let ?call = "create_task_rows now dataset_id task_id is_partial generate_scope s"
  obtain c0 s1 where g: "get_db s = (c0, s1)" by (cases "get_db s")
  have v0: "conn_view c0 (db_file s1) = unit_view s"
    using get_db_conn_view [of s] get_db_file [of s] by (simp add: g)
  show ?thesis
  proof (cases "task_id \<in> set (map t_task_id (tbl_generate_task (unit_view s)))")
    case True
    then have "conn_execute (insert_generate_task now dataset_id task_id is_partial)
                 c0 (db_file s1) = (Inl IntegrityError, c0\<lparr>pending := Some (unit_view s)\<rparr>)"
      using conn_execute_task_dup [of task_id c0 "db_file s1"] by (simp add: v0)
    then have "unit_view (snd ?call) =
       (unit_view s)\<lparr>tbl_generate_task := tbl_generate_task (unit_view s) @ [],
                     tbl_generate_scope := tbl_generate_scope (unit_view s) @
                       map (\<lambda>fp. \<lparr>s_task_id = task_id, s_filepath = fp\<rparr>) []\<rparr>"
      by (simp add: create_task_rows_def g)
    with True show ?thesis by blast
  next
    case False
    let ?db1 = "(unit_view s)\<lparr>tbl_generate_task := tbl_generate_task (unit_view s) @
                  [new_task now dataset_id task_id is_partial]\<rparr>"
    let ?c1 = "c0\<lparr>pending := Some ?db1\<rparr>"
    have e1: "conn_execute (insert_generate_task now dataset_id task_id is_partial)
                c0 (db_file s1) = (Inr (), ?c1)"
      using False conn_execute_task_new [of task_id c0 "db_file s1"] by (simp add: v0)
    obtain r2 c2 where e2: "insert_scope_rows task_id generate_scope ?c1 (db_file s1) = (r2, c2)"
      by (cases "insert_scope_rows task_id generate_scope ?c1 (db_file s1)")
    from insert_scope_rows_view [of task_id generate_scope ?c1 "db_file s1"]
    obtain ins where d: "conn_view c2 (db_file s1) =
        ?db1\<lparr>tbl_generate_scope := tbl_generate_scope ?db1 @
               map (\<lambda>fp. \<lparr>s_task_id = task_id, s_filepath = fp\<rparr>) ins\<rparr>"
      by (auto simp: e2)
    have "unit_view (snd ?call) = conn_view c2 (db_file s1)"
      by (cases r2) (simp_all add: create_task_rows_def g e1 e2 conn_commit_def)
    with d have "unit_view (snd ?call) =
       (unit_view s)\<lparr>tbl_generate_task := tbl_generate_task (unit_view s) @
                       [new_task now dataset_id task_id is_partial],
                     tbl_generate_scope := tbl_generate_scope (unit_view s) @
                       map (\<lambda>fp. \<lparr>s_task_id = task_id, s_filepath = fp\<rparr>) ins\<rparr>"
      by simp
    with False show ?thesis by blast
  qed
qed

lemma create_task_rows_file:
  "db_file (snd (create_task_rows now dataset_id task_id is_partial generate_scope s)) = db_file s \<or>
   db_file (snd (create_task_rows now dataset_id task_id is_partial generate_scope s)) =
     unit_view (snd (create_task_rows now dataset_id task_id is_partial generate_scope s))"
  by (auto simp: create_task_rows_def conn_commit_def split_beta Let_def
        split: sum.splits prod.splits)

lemma create_task_rows_scope_rows_have_task:
  assumes "scope_rows_have_task (unit_view s)" and "scope_rows_have_task (db_file s)"
  shows "scope_rows_have_task
           (unit_view (snd (create_task_rows now dataset_id task_id is_partial generate_scope s))) \<and>
         scope_rows_have_task
           (db_file (snd (create_task_rows now dataset_id task_id is_partial generate_scope s)))"
proof -
  let ?s' = "snd (create_task_rows now dataset_id task_id is_partial generate_scope s)"
  from create_task_rows_view [of now dataset_id task_id is_partial generate_scope s]
  obtain ts ins where
    v: "unit_view ?s' =
       (unit_view s)\<lparr>tbl_generate_task := tbl_generate_task (unit_view s) @ ts,
                     tbl_generate_scope := tbl_generate_scope (unit_view s) @
                       map (\<lambda>fp. \<lparr>s_task_id = task_id, s_filepath = fp\<rparr>) ins\<rparr>"
    and d: "(task_id \<in> set (map t_task_id (tbl_generate_task (unit_view s))) \<and>
       ts = [] \<and> ins = []) \<or>
      (task_id \<notin> set (map t_task_id (tbl_generate_task (unit_view s))) \<and>
       ts = [new_task now dataset_id task_id is_partial])"
    by blast
  from d have "ins = [] \<or> task_id \<in> set (map t_task_id (tbl_generate_task (unit_view s) @ ts))"
    by (auto simp: new_task_def)
  with assms(1) have a: "scope_rows_have_task (unit_view ?s')"
    unfolding v by (rule scope_rows_have_task_extend)
  from create_task_rows_file [of now dataset_id task_id is_partial generate_scope s] a assms(2)
  have "scope_rows_have_task (db_file ?s')" by auto
  with a show ?thesis by simp
qed

lemma create_download_record_scope_rows_have_task:
  assumes "scope_rows_have_task (unit_view s)" and "scope_rows_have_task (db_file s)"
  shows "scope_rows_have_task (unit_view (snd (create_download_record token filename s))) \<and>
         scope_rows_have_task (db_file (snd (create_download_record token filename s)))"
proof (cases "token \<in> set (map d_token (tbl_download (unit_view s)))")
  case True
  then show ?thesis using assms by (simp add: create_download_record_dup)
next
  case False
  then show ?thesis
    using assms by (simp add: create_download_record_new scope_rows_have_task_def)
qed

lemma after_call_scope_rows_have_task:
  assumes "scope_rows_have_task (unit_view s)" and "scope_rows_have_task (db_file s)"
  shows "scope_rows_have_task (unit_view (after_call call s)) \<and>
         scope_rows_have_task (db_file (after_call call s))"
proof (cases call)
  case (Create_download_record token filename)
  then show ?thesis
    using create_download_record_scope_rows_have_task [OF assms, of token filename] by simp
next
  case (Create_task_rows now dataset_id task_id is_partial generate_scope)
  then show ?thesis
    using create_task_rows_scope_rows_have_task
            [OF assms, of now dataset_id task_id is_partial generate_scope]
    by simp
qed (simp_all add: assms get_download_record_view get_task_rows_view get_package_row_view
       get_generate_scope_filepaths_view get_task_for_package_view)

lemma unit_of_work_scope_rows_have_task:
  assumes "scope_rows_have_task (unit_view s)" and "scope_rows_have_task (db_file s)"
  shows "scope_rows_have_task (unit_view (unit_of_work calls s)) \<and>
         scope_rows_have_task (db_file (unit_of_work calls s))"
  using assms
proof (induction calls arbitrary: s)
  case Nil
  then show ?case by (simp add: unit_of_work_def)
next
  case (Cons call calls)
  from after_call_scope_rows_have_task [OF Cons.prems, of call]
  have "scope_rows_have_task (unit_view (after_call call s))"
    and "scope_rows_have_task (db_file (after_call call s))"
    by simp_all
  from Cons.IH [OF this] show ?case by (simp add: unit_of_work_def)
qed

text \<open>
  The scope of a task that is in \<^verbatim>\<open>generate_task\<close> is not changed by any call: a
  second \<^verbatim>\<open>create_task_rows\<close> for it is rejected at its task row, and every other
  call inserts scope rows of another task or none.
\<close>

lemma after_call_keeps_scope:
  assumes "tid \<in> set (map t_task_id (tbl_generate_task (unit_view s)))"
  shows "fst (get_generate_scope_filepaths tid (after_call call s))
           = fst (get_generate_scope_filepaths tid s) \<and>
         tid \<in> set (map t_task_id (tbl_generate_task (unit_view (after_call call s))))"
proof (cases call)
  case (Create_download_record token filename)
  show ?thesis
  proof (cases "token \<in> set (map d_token (tbl_download (unit_view s)))")
    case True
    then show ?thesis
      using assms Create_download_record
      by (simp add: create_download_record_dup get_generate_scope_filepaths_view)
  next
    case False
    then show ?thesis
      using assms Create_download_record
      by (simp add: create_download_record_new get_generate_scope_filepaths_view)
  qed
next
  case (Create_task_rows now dataset_id task_id is_partial generate_scope)
  let ?s' = "snd (create_task_rows now dataset_id task_id is_partial generate_scope s)"
  from create_task_rows_view [of now dataset_id task_id is_partial generate_scope s]
  obtain ts ins where
    v: "unit_view ?s' =
       (unit_view s)\<lparr>tbl_generate_task := tbl_generate_task (unit_view s) @ ts,
                     tbl_generate_scope := tbl_generate_scope (unit_view s) @
                       map (\<lambda>fp. \<lparr>s_task_id = task_id, s_filepath = fp\<rparr>) ins\<rparr>"
    and d: "(task_id \<in> set (map t_task_id (tbl_generate_task (unit_view s))) \<and>
       ts = [] \<and> ins = []) \<or>
      (task_id \<notin> set (map t_task_id (tbl_generate_task (unit_view s))) \<and>
       ts = [new_task now dataset_id task_id is_partial])"
    by blast
  from d assms have other: "ins = [] \<or> task_id \<noteq> tid" by auto
  have "{r \<in> set (tbl_generate_scope (unit_view ?s')). s_task_id r = tid} =
        {r \<in> set (tbl_generate_scope (unit_view s)). s_task_id r = tid}"
    using other by (auto simp: v)
  then have "fst (get_generate_scope_filepaths tid ?s') = fst (get_generate_scope_filepaths tid s)"
    by (simp add: get_generate_scope_filepaths_view)
  moreover have "tid \<in> set (map t_task_id (tbl_generate_task (unit_view ?s')))"
    using assms by (simp add: v)
  ultimately show ?thesis using Create_task_rows by simp
qed (insert assms, simp_all add: get_download_record_view get_task_rows_view
       get_package_row_view get_generate_scope_filepaths_view get_task_for_package_view)

lemma unit_of_work_keeps_scope:
  assumes "tid \<in> set (map t_task_id (tbl_generate_task (unit_view s)))"
  shows "fst (get_generate_scope_filepaths tid (unit_of_work calls s))
           = fst (get_generate_scope_filepaths tid s)"
  using assms
proof (induction calls arbitrary: s)
  case Nil
  then show ?case by (simp add: unit_of_work_def)
next
  case (Cons call calls)
  from after_call_keeps_scope [OF Cons.prems, of call]
  have same: "fst (get_generate_scope_filepaths tid (after_call call s))
           = fst (get_generate_scope_filepaths tid s)"
    and kept: "tid \<in> set (map t_task_id (tbl_generate_task (unit_view (after_call call s))))"
    by simp_all
  from Cons.IH [OF kept] same show ?case by (simp add: unit_of_work_def)
qed

text \<open>
  C6. After a \<^verbatim>\<open>create_task_rows\<close> that returned, for a task id without scope rows
  before the call, \<^verbatim>\<open>get_generate_scope_filepaths\<close> returns the set of the filepaths
  that were given, in no order and without duplicates, at once and after whatever
  further calls the unit of work makes. For a task id without scope rows it returns
  the empty set, and so it does for a task id that is not in \<^verbatim>\<open>generate_task\<close> when
  every scope row has its task.
\<close>

theorem scope_of_created_task:
  "(\<forall>row. fst (create_task_rows now dataset_id task_id is_partial generate_scope s) = Inr row \<and>
          task_id \<notin> set (map s_task_id (tbl_generate_scope (unit_view s))) \<longrightarrow>
      fst (get_generate_scope_filepaths task_id
             (snd (create_task_rows now dataset_id task_id is_partial generate_scope s)))
        = set generate_scope \<and>
      fst (get_generate_scope_filepaths task_id
             (unit_of_work calls
                (snd (create_task_rows now dataset_id task_id is_partial generate_scope s))))
        = set generate_scope) \<and>
   (task_id \<notin> set (map t_task_id (tbl_generate_task (unit_view s))) \<and>
    distinct generate_scope \<and>
    task_id \<notin> set (map s_task_id (tbl_generate_scope (unit_view s))) \<longrightarrow>
      (\<exists>row. fst (create_task_rows now dataset_id task_id is_partial generate_scope s) = Inr row)) \<and>
   (task_id \<notin> set (map s_task_id (tbl_generate_scope (unit_view s))) \<longrightarrow>
      fst (get_generate_scope_filepaths task_id s) = {}) \<and>
   (scope_rows_have_task (unit_view s) \<and>
    task_id \<notin> set (map t_task_id (tbl_generate_task (unit_view s))) \<longrightarrow>
      fst (get_generate_scope_filepaths task_id s) = {})"
proof -
  let ?call = "create_task_rows now dataset_id task_id is_partial generate_scope s"
  let ?old = "tbl_generate_scope (unit_view s)"
  have none: "fst (get_generate_scope_filepaths task_id s) = {}"
    if "task_id \<notin> set (map s_task_id ?old)"
    using that by (auto simp: get_generate_scope_filepaths_view)
  have stale: "task_id \<notin> set (map s_task_id ?old)"
    if "scope_rows_have_task (unit_view s)"
      and "task_id \<notin> set (map t_task_id (tbl_generate_task (unit_view s)))"
    using that by (auto simp: scope_rows_have_task_def list_all_iff)
  have free: "\<forall>fp \<in> set generate_scope.
         \<lparr>s_task_id = task_id, s_filepath = fp\<rparr> \<notin> set ?old"
    if "task_id \<notin> set (map s_task_id ?old)"
  proof
    fix fp
    show "\<lparr>s_task_id = task_id, s_filepath = fp\<rparr> \<notin> set ?old"
    proof
      assume "\<lparr>s_task_id = task_id, s_filepath = fp\<rparr> \<in> set ?old"
      then have "s_task_id \<lparr>s_task_id = task_id, s_filepath = fp\<rparr> \<in> s_task_id ` set ?old"
        by (rule imageI)
      with that show False by simp
    qed
  qed
  have created: "fst (get_generate_scope_filepaths task_id (snd ?call)) = set generate_scope \<and>
      fst (get_generate_scope_filepaths task_id (unit_of_work calls (snd ?call)))
        = set generate_scope"
    if ret: "fst ?call = Inr row" and old: "task_id \<notin> set (map s_task_id ?old)" for row
  proof -
    have ok: "task_id \<notin> set (map t_task_id (tbl_generate_task (unit_view s))) \<and>
      distinct generate_scope \<and>
      (\<forall>fp \<in> set generate_scope.
         \<lparr>s_task_id = task_id, s_filepath = fp\<rparr> \<notin> set ?old)"
    proof (rule ccontr)
      assume "\<not> ?thesis"
      then have "fst ?call = Inl IntegrityError" by (rule create_task_rows_fail)
      with ret show False by simp
    qed
    then have v: "unit_view (snd ?call) =
           (unit_view s)\<lparr>tbl_generate_task := tbl_generate_task (unit_view s) @
                            [new_task now dataset_id task_id is_partial],
                         tbl_generate_scope := ?old @
                            map (\<lambda>fp. \<lparr>s_task_id = task_id, s_filepath = fp\<rparr>) generate_scope\<rparr>"
      by (simp add: create_task_rows_ok)
    then have "fst (get_generate_scope_filepaths task_id (snd ?call)) =
       s_filepath ` {r \<in> set ?old \<union>
          (\<lambda>fp. \<lparr>s_task_id = task_id, s_filepath = fp\<rparr>) ` set generate_scope.
          s_task_id r = task_id}"
      by (simp add: get_generate_scope_filepaths_view)
    moreover have "{r \<in> set ?old \<union>
          (\<lambda>fp. \<lparr>s_task_id = task_id, s_filepath = fp\<rparr>) ` set generate_scope.
          s_task_id r = task_id} =
          (\<lambda>fp. \<lparr>s_task_id = task_id, s_filepath = fp\<rparr>) ` set generate_scope"
      using old by auto
    ultimately have now_set:
      "fst (get_generate_scope_filepaths task_id (snd ?call)) = set generate_scope"
      by (simp add: image_image)
    have "task_id \<in> set (map t_task_id (tbl_generate_task (unit_view (snd ?call))))"
      by (simp add: v new_task_def)
    from unit_of_work_keeps_scope [OF this, of calls] now_set
    show ?thesis by simp
  qed
  have returns: "\<exists>row. fst ?call = Inr row"
    if "task_id \<notin> set (map t_task_id (tbl_generate_task (unit_view s)))"
      and "distinct generate_scope" and "task_id \<notin> set (map s_task_id ?old)"
    using create_task_rows_ok(1) [OF that(1) that(2) free [OF that(3)]] by blast
  show ?thesis
    using none stale created returns by blast
qed

text \<open>
  In the scenario the scope of a new task \<open>T9\<close> is read back as given, also after a
  second, rejected \<^verbatim>\<open>create_task_rows\<close> for \<open>T9\<close> with another scope; the scope of
  \<open>T3\<close> (a task without scope rows) and of \<open>T7\<close> (no task) is empty.
\<close>

theorem scope_of_created_task_witness:
  "fst (create_task_rows ''2020-02-01 00:00:00'' ''D1'' ''T9'' False [''c.txt'', ''a.txt'']
          scenario)
     = Inr (Some (Some ''2020-02-01 00:00:00'', ''T9'', Some ''PENDING'', None)) \<and>
   fst (get_generate_scope_filepaths ''T9''
          (snd (create_task_rows ''2020-02-01 00:00:00'' ''D1'' ''T9'' False
                  [''c.txt'', ''a.txt''] scenario))) = {''a.txt'', ''c.txt''} \<and>
   fst (get_generate_scope_filepaths ''T9''
          (unit_of_work
             [Create_task_rows ''2020-02-02 00:00:00'' ''D1'' ''T9'' True [''z.txt''],
              Get_task_rows ''D1'' '''']
             (snd (create_task_rows ''2020-02-01 00:00:00'' ''D1'' ''T9'' False
                     [''c.txt'', ''a.txt''] scenario)))) = {''a.txt'', ''c.txt''} \<and>
   fst (get_generate_scope_filepaths ''T3'' scenario) = {} \<and>
   scope_rows_have_task (unit_view scenario) \<and>
   fst (get_generate_scope_filepaths ''T7'' scenario) = {} \<and>
   fst (get_generate_scope_filepaths ''T1'' scenario) = {''a.txt'', ''b.txt''}"
proof -
  let ?call = "create_task_rows ''2020-02-01 00:00:00'' ''D1'' ''T9'' False
                 [''c.txt'', ''a.txt''] scenario"
  let ?calls = "[Create_task_rows ''2020-02-02 00:00:00'' ''D1'' ''T9'' True [''z.txt''],
              Get_task_rows ''D1'' '''']"
  have v: "unit_view scenario = scenario_db"
    by (simp add: scenario_def unit_view_def)
  have r: "fst ?call = Inr (Some (Some ''2020-02-01 00:00:00'', ''T9'', Some ''PENDING'', None))"
    by (simp add: create_task_rows_def insert_generate_task_def insert_generate_scope_def
          new_task_def created_columns_def scenario_defs)
  have o9: "''T9'' \<notin> set (map s_task_id (tbl_generate_scope (unit_view scenario)))"
    by (simp add: v scenario_db_def)
  have o3: "''T3'' \<notin> set (map s_task_id (tbl_generate_scope (unit_view scenario)))"
    by (simp add: v scenario_db_def)
  have fk: "scope_rows_have_task (unit_view scenario)"
    by (simp add: v scenario_db_def scope_rows_have_task_def)
  have t7: "''T7'' \<notin> set (map t_task_id (tbl_generate_task (unit_view scenario)))"
    by (simp add: v scenario_db_def)
  have t1: "fst (get_generate_scope_filepaths ''T1'' scenario) = {''a.txt'', ''b.txt''}"
    by (simp add: get_generate_scope_filepaths_def scenario_defs del: set_filter)
  from scope_of_created_task
         [of "''2020-02-01 00:00:00''" "''D1''" "''T9''" False "[''c.txt'', ''a.txt'']" scenario
             ?calls]
       r o9
  have a: "fst (get_generate_scope_filepaths ''T9'' (snd ?call)) = set [''c.txt'', ''a.txt'']"
    and a2: "fst (get_generate_scope_filepaths ''T9'' (unit_of_work ?calls (snd ?call)))
               = set [''c.txt'', ''a.txt'']"
    by blast+
  from scope_of_created_task [of _ _ "''T3''" _ _ scenario] o3
  have b: "fst (get_generate_scope_filepaths ''T3'' scenario) = {}" by blast
  from scope_of_created_task [of _ _ "''T7''" _ _ scenario] fk t7
  have c: "fst (get_generate_scope_filepaths ''T7'' scenario) = {}" by blast
  have e: "set [''c.txt'', ''a.txt''] = {''a.txt'', ''c.txt''}"
    by (simp add: insert_commute)
  from r a a2 b fk c t1 show ?thesis unfolding e by simp
qed

section \<open>The transaction of a call that raised\<close>

text \<open>
  No operation rolls back. The rows that a \<^verbatim>\<open>create_task_rows\<close> inserted before it
  raised stay in the open transaction of \<^verbatim>\<open>g.db\<close>: \<^verbatim>\<open>close_db\<close> discards them, and a
  commit by a later call of the same unit of work writes them to the file with its
  own rows. So when \<^verbatim>\<open>create_task_rows\<close> raises at a scope row and the unit of work
  goes on to create a download record, the file holds the row of the task.
\<close>

lemma raised_task_row_committed_later:
  assumes fresh: "task_id \<notin> set (map t_task_id (tbl_generate_task (unit_view s)))"
      and scope: "\<not> (distinct generate_scope \<and>
                (\<forall>fp \<in> set generate_scope.
                   \<lparr>s_task_id = task_id, s_filepath = fp\<rparr> \<notin> set (tbl_generate_scope (unit_view s))))"
      and token: "token \<notin> set (map d_token (tbl_download (unit_view s)))"
  shows "fst (create_task_rows now dataset_id task_id is_partial generate_scope s)
           = Inl IntegrityError \<and>
         db_file (snd (create_task_rows now dataset_id task_id is_partial generate_scope s))
           = db_file s \<and>
         fst (create_download_record token filename
                (snd (create_task_rows now dataset_id task_id is_partial generate_scope s)))
           = Inr () \<and>
         new_task now dataset_id task_id is_partial
           \<in> set (tbl_generate_task (db_file
                (snd (create_download_record token filename
                   (snd (create_task_rows now dataset_id task_id is_partial generate_scope s))))))"
proof -
  let ?s' = "snd (create_task_rows now dataset_id task_id is_partial generate_scope s)"
  have raised: "fst (create_task_rows now dataset_id task_id is_partial generate_scope s)
                  = Inl IntegrityError"
    using scope by (intro create_task_rows_fail) blast
  then have unchanged: "db_file ?s' = db_file s"
    by (rule create_task_rows_raise_file)
  from create_task_rows_view [of now dataset_id task_id is_partial generate_scope s] fresh
  obtain ins where
    v: "unit_view ?s' =
       (unit_view s)\<lparr>tbl_generate_task := tbl_generate_task (unit_view s) @
                       [new_task now dataset_id task_id is_partial],
                     tbl_generate_scope := tbl_generate_scope (unit_view s) @
                       map (\<lambda>fp. \<lparr>s_task_id = task_id, s_filepath = fp\<rparr>) ins\<rparr>"
    by auto
  have t: "token \<notin> set (map d_token (tbl_download (unit_view ?s')))"
    using token by (simp add: v)
  from create_download_record_new [OF t, of filename]
  have "fst (create_download_record token filename ?s') = Inr ()"
    and "db_file (snd (create_download_record token filename ?s')) =
           (unit_view ?s')\<lparr>tbl_download :=
                  tbl_download (unit_view ?s') @ [\<lparr>d_token = token, d_filename = filename\<rparr>]\<rparr>"
    by simp_all
  with raised unchanged show ?thesis by (simp add: v)
qed

text \<open>
  C2. A \<^verbatim>\<open>create_task_rows\<close> that raises after the task row is to leave no task row
  for another unit of work to see, task and scope being committed together or not at
  all. The code does not keep to it. In the scenario the scope \<open>a.txt\<close>, \<open>a.txt\<close>,
  \<open>b.txt\<close> of a new task \<open>T9\<close> is rejected at its second row, and the file is then as
  it was. But the unit of work goes on, a \<^verbatim>\<open>create_download_record\<close> commits, and
  the file holds the row of \<open>T9\<close> with the one scope row \<open>a.txt\<close>: another unit of
  work lists \<open>T9\<close> and reads \<open>a.txt\<close> as its scope, where \<open>a.txt\<close> and \<open>b.txt\<close>
  were given.
\<close>

theorem create_task_rows_raise_then_commit:
  "fst (create_task_rows ''2020-02-01 00:00:00'' ''D1'' ''T9'' False
          [''a.txt'', ''a.txt'', ''b.txt''] scenario) = Inl IntegrityError \<and>
   db_file (snd (create_task_rows ''2020-02-01 00:00:00'' ''D1'' ''T9'' False
                   [''a.txt'', ''a.txt'', ''b.txt''] scenario)) = scenario_db \<and>
   fst (create_download_record ''tok2'' ''T1.zip''
          (snd (create_task_rows ''2020-02-01 00:00:00'' ''D1'' ''T9'' False
                  [''a.txt'', ''a.txt'', ''b.txt''] scenario))) = Inr () \<and>
   tbl_generate_task (db_file
      (snd (create_download_record ''tok2'' ''T1.zip''
        (snd (create_task_rows ''2020-02-01 00:00:00'' ''D1'' ''T9'' False
                [''a.txt'', ''a.txt'', ''b.txt''] scenario))))) =
     tbl_generate_task scenario_db @
       [\<lparr>t_dataset_id = ''D1'', t_task_id = ''T9'', t_status = Some ''PENDING'',
         t_is_partial = False, t_initiated = Some ''2020-02-01 00:00:00'',
         t_date_done = None\<rparr>] \<and>
   tbl_generate_scope (db_file
      (snd (create_download_record ''tok2'' ''T1.zip''
        (snd (create_task_rows ''2020-02-01 00:00:00'' ''D1'' ''T9'' False
                [''a.txt'', ''a.txt'', ''b.txt''] scenario))))) =
     tbl_generate_scope scenario_db @ [\<lparr>s_task_id = ''T9'', s_filepath = ''a.txt''\<rparr>] \<and>
   fst (get_generate_scope_filepaths ''T9'' (other_unit
      (snd (create_download_record ''tok2'' ''T1.zip''
        (snd (create_task_rows ''2020-02-01 00:00:00'' ''D1'' ''T9'' False
                [''a.txt'', ''a.txt'', ''b.txt''] scenario)))))) = {''a.txt''} \<and>
   fst (get_task_rows ''D1'' ''2020-01-04 10:00:00'' (other_unit
      (snd (create_download_record ''tok2'' ''T1.zip''
        (snd (create_task_rows ''2020-02-01 00:00:00'' ''D1'' ''T9'' False
                [''a.txt'', ''a.txt'', ''b.txt''] scenario)))))) =
     [(Some ''2020-02-01 00:00:00'', None, ''T9'', Some ''PENDING'', False)]"
proof -
  let ?raised = "snd (create_task_rows ''2020-02-01 00:00:00'' ''D1'' ''T9'' False
                        [''a.txt'', ''a.txt'', ''b.txt''] scenario)"
  let ?later = "snd (create_download_record ''tok2'' ''T1.zip'' ?raised)"
  have r: "fst (create_task_rows ''2020-02-01 00:00:00'' ''D1'' ''T9'' False
                  [''a.txt'', ''a.txt'', ''b.txt''] scenario) = Inl IntegrityError"
    by (simp add: create_task_rows_def insert_generate_task_def insert_generate_scope_def
          new_task_def scenario_defs)
  have f: "db_file ?raised = scenario_db"
    using create_task_rows_raise_file [OF r] by (simp add: scenario_def)
  have v: "unit_view ?raised =
      scenario_db\<lparr>tbl_generate_task := tbl_generate_task scenario_db @
          [\<lparr>t_dataset_id = ''D1'', t_task_id = ''T9'', t_status = Some ''PENDING'',
            t_is_partial = False, t_initiated = Some ''2020-02-01 00:00:00'',
            t_date_done = None\<rparr>],
        tbl_generate_scope := tbl_generate_scope scenario_db @
          [\<lparr>s_task_id = ''T9'', s_filepath = ''a.txt''\<rparr>]\<rparr>"
    by (simp add: create_task_rows_def insert_generate_task_def insert_generate_scope_def
          new_task_def scenario_defs)
  have t: "''tok2'' \<notin> set (map d_token (tbl_download (unit_view ?raised)))"
    by (simp add: v scenario_db_def)
  from create_download_record_new [OF t, of "''T1.zip''"]
  have c: "fst (create_download_record ''tok2'' ''T1.zip'' ?raised) = Inr ()"
    and l: "db_file ?later =
           (unit_view ?raised)\<lparr>tbl_download :=
              tbl_download (unit_view ?raised) @ [\<lparr>d_token = ''tok2'', d_filename = ''T1.zip''\<rparr>]\<rparr>"
    by simp_all
  have n: "\<not> reads_as_number ''2020-01-04 10:00:00''"
    by (rule colon_not_number) simp
  have scope: "fst (get_generate_scope_filepaths ''T9'' (other_unit ?later)) = {''a.txt''}"
    by (simp add: get_generate_scope_filepaths_rows l v scenario_db_def)
  have listed: "fst (get_task_rows ''D1'' ''2020-01-04 10:00:00'' (other_unit ?later)) =
     [(Some ''2020-02-01 00:00:00'', None, ''T9'', Some ''PENDING'', False)]"
    by (simp add: get_task_rows_view task_selected_iff n task_columns_def l v scenario_db_def)
  from r f c scope listed show ?thesis by (simp add: l v)
qed

end
